theory Spec2Isabelle
  imports Main "HOL-Library.Multiset" "HOL-Library.Product_Lexorder"
    "HOL-Library.List_Lexorder" "HOL-Library.Char_ord"
begin

section \<open>The page scripts: a model of the document\<close>

text \<open>
  The scripts of \<^verbatim>\<open>tabs.js\<close>, \<^verbatim>\<open>script.js\<close> and \<^verbatim>\<open>index.html\<close> read and write four things
  of an element: its \<^verbatim>\<open>id\<close>, its class list, its \<^verbatim>\<open>data-tab\<close> attribute and three
  properties of its inline style; they read its \<^verbatim>\<open>textContent\<close>. The buttons of
  \<^verbatim>\<open>index.html\<close> carry \<^verbatim>\<open>onclick="openTab('...')"\<close>; \<open>onclickTab\<close> is the argument written
  there. A document is the list of its elements in tree order, and a node is its index in
  that list. No script adds or removes an element, so indices are stable.

  A style property is the text last assigned to it (\<open>''''\<close> when unset); how a browser
  prints it back is not modelled.
\<close>

record css_style =
  backgroundColor :: string
  color :: string
  fontWeight :: string

record element =
  idAttr :: "string option"
  classList :: "string list"
  dataTab :: "string option"
  onclickTab :: "string option"
  textContent :: string
  style :: css_style

type_synonym document = "element list"

datatype js_error = TypeError | SyntaxError

text \<open>\<^verbatim>\<open>querySelectorAll('.c')\<close> and \<^verbatim>\<open>getElementsByClassName('c')\<close>: the elements carrying
  class \<open>c\<close>, in tree order.\<close>

definition querySelectorAll :: "string \<Rightarrow> document \<Rightarrow> nat list" where
  "querySelectorAll c doc = filter (\<lambda>i. c \<in> set (classList (doc ! i))) [0..<length doc]"

text \<open>\<^verbatim>\<open>nodes.forEach(n => f(n))\<close> where \<open>f\<close> mutates the node it is given: the nodes are
  visited in order and each visit updates the document in place.\<close>

definition forEach :: "nat list \<Rightarrow> (element \<Rightarrow> element) \<Rightarrow> document \<Rightarrow> document" where
  "forEach nodes f doc = foldl (\<lambda>d i. d[i := f (d ! i)]) doc nodes"

text \<open>\<^verbatim>\<open>classList.remove(c)\<close> and \<^verbatim>\<open>classList.add(c)\<close> on a token list.\<close>

definition classList_remove :: "string \<Rightarrow> element \<Rightarrow> element" where
  "classList_remove c e = e\<lparr>classList := removeAll c (classList e)\<rparr>"

definition classList_add :: "string \<Rightarrow> element \<Rightarrow> element" where
  "classList_add c e = (if c \<in> set (classList e) then e else e\<lparr>classList := classList e @ [c]\<rparr>)"

text \<open>\<^verbatim>\<open>document.getElementById(s)\<close>: the first element in tree order whose id is \<open>s\<close>, or
  null. An element whose \<^verbatim>\<open>id\<close> attribute is empty has no id, so the empty string finds
  nothing.\<close>

definition getElementById :: "string \<Rightarrow> document \<Rightarrow> nat option" where
  "getElementById s doc =
     (if s = [] then None else find (\<lambda>i. idAttr (doc ! i) = Some s) [0..<length doc])"

text \<open>A null passed where a string is expected (\<^verbatim>\<open>getAttribute\<close> of a missing attribute
  given to \<^verbatim>\<open>getElementById\<close> or spliced into a template literal) reads \<^verbatim>\<open>"null"\<close>.\<close>

definition jsString :: "string option \<Rightarrow> string" where
  "jsString v = (case v of None \<Rightarrow> ''null'' | Some s \<Rightarrow> s)"

subsection \<open>The styling pass (script.js 22-29 and 69-76)\<close>

text \<open>
  \<^verbatim>\<open>
  failedCells.forEach(cell => {
      if (cell.textContent === '0') {
          cell.style.backgroundColor = 'transparent';
          cell.style.color = '#d7dadc';
          cell.style.fontWeight = 'normal';
      }
  });
  \<close>
\<close>

definition styleCell :: "element \<Rightarrow> element" where
  "styleCell cell =
     (if textContent cell = ''0''
      then cell\<lparr>style := (style cell)\<lparr>backgroundColor := ''transparent'',
                                        color := ''#d7dadc'',
                                        fontWeight := ''normal''\<rparr>\<rparr>
      else cell)"

definition styleFailedCells :: "document \<Rightarrow> document" where
  "styleFailedCells doc = forEach (querySelectorAll ''failed-attempts'' doc) styleCell doc"

subsection \<open>What a click leaves behind, in the words of the page\<close>

text \<open>\<^verbatim>\<open>classList.contains(c)\<close>.\<close>

definition hasClass :: "string \<Rightarrow> element \<Rightarrow> bool" where
  "hasClass c e = (c \<in> set (classList e))"

text \<open>Two elements that are the same but for the class \<^verbatim>\<open>active\<close>.\<close>

definition differOnlyInActive :: "element \<Rightarrow> element \<Rightarrow> bool" where
  "differOnlyInActive e e' =
     (e'\<lparr>classList := removeAll ''active'' (classList e')\<rparr> =
      e\<lparr>classList := removeAll ''active'' (classList e)\<rparr>)"

text \<open>
  \<open>switched doc button content doc'\<close>: \<open>doc'\<close> is \<open>doc\<close> with the tabs switched to the node
  \<open>button\<close> and the node \<open>content\<close> (either may be missing). Its elements are those of
  \<open>doc\<close> but for the class \<^verbatim>\<open>active\<close>, which the two nodes carry, which no other tab button
  and no other tab content carries, and which any other element carries as it did before.
\<close>

definition switched :: "document \<Rightarrow> nat option \<Rightarrow> nat option \<Rightarrow> document \<Rightarrow> bool" where
  "switched doc button content doc' =
     (length doc' = length doc \<and>
      (\<forall>i < length doc.
         differOnlyInActive (doc ! i) (doc' ! i) \<and>
         (hasClass ''active'' (doc' ! i) \<longleftrightarrow>
            button = Some i \<or> content = Some i \<or>
            (hasClass ''active'' (doc ! i) \<and> \<not> hasClass ''tab-button'' (doc ! i) \<and>
             \<not> hasClass ''tab-content'' (doc ! i)))))"

text \<open>Element \<open>i\<close> once \<^verbatim>\<open>active\<close> is removed from every tab button and every tab content.\<close>

definition cleared :: "document \<Rightarrow> nat \<Rightarrow> element" where
  "cleared doc i =
     (if hasClass ''tab-button'' (doc ! i) \<or> hasClass ''tab-content'' (doc ! i)
      then classList_remove ''active'' (doc ! i) else doc ! i)"

text \<open>At most one element of class \<^verbatim>\<open>tab-content\<close> carries \<^verbatim>\<open>active\<close>.\<close>

definition atMostOneActiveContent :: "document \<Rightarrow> bool" where
  "atMostOneActiveContent doc =
     (\<forall>i < length doc. \<forall>j < length doc.
        hasClass ''tab-content'' (doc ! i) \<and> hasClass ''active'' (doc ! i) \<and>
        hasClass ''tab-content'' (doc ! j) \<and> hasClass ''active'' (doc ! j) \<longrightarrow> i = j)"

text \<open>No element is both a tab button and a tab content.\<close>

definition buttonsApartFromContents :: "document \<Rightarrow> bool" where
  "buttonsApartFromContents doc =
     (\<forall>i < length doc. \<not> (hasClass ''tab-button'' (doc ! i) \<and> hasClass ''tab-content'' (doc ! i)))"

subsection \<open>Looking a tab button up by selector (script.js 44)\<close>

text \<open>
  \<^verbatim>\<open>document.querySelector(`.tab-button[data-tab="${tabId}"]`)\<close> splices \<open>tabId\<close> into the
  text of a selector, unescaped. \<open>tabButtonSelector\<close> is that text (\<open>CHR 0x22\<close> is the
  double quote).
\<close>

definition tabButtonSelector :: "string \<Rightarrow> string" where
  "tabButtonSelector tabId = ''.tab-button[data-tab='' @ [CHR 0x22] @ tabId @ [CHR 0x22] @ '']''"

text \<open>
  How a selector engine reads such a text, as far as CSS Syntax and Selectors fix it without
  a full parser. After the opening quote the engine is inside a string token:
  \<^item> a double quote ends the string; if \<^verbatim>\<open>]\<close> and the end of the text follow, the selector is
    \<^verbatim>\<open>.tab-button[data-tab="v"]\<close> for the characters \<open>v\<close> read so far (\<open>Reads v\<close>);
  \<^item> if another double quote follows the closing one, a second string token stands where
    only a modifier or \<^verbatim>\<open>]\<close> may, and the selector is invalid (\<open>Rejected\<close>);
  \<^item> a raw line feed, carriage return or form feed inside the string makes it a bad string,
    and the selector is invalid (\<open>Rejected\<close>);
  \<^item> anything else (a backslash escape, a NUL, other text after the closing quote, another
    selector altogether) is \<open>Other\<close>, and is left to the engine the model is given.
\<close>

datatype selector_reading = Reads string | Rejected | Other

definition cssSpecial :: "char \<Rightarrow> bool" where
  "cssSpecial c = (c = CHR 0x22 \<or> c = CHR 0x5C \<or> c = CHR 0x0A \<or> c = CHR 0x0D \<or> c = CHR 0x0C
                    \<or> c = CHR 0x00)"

definition readAttrString :: "string \<Rightarrow> selector_reading" where
  "readAttrString input =
     (let v = takeWhile (\<lambda>c. \<not> cssSpecial c) input
      in case dropWhile (\<lambda>c. \<not> cssSpecial c) input of
           [] \<Rightarrow> Other
         | c # tail \<Rightarrow>
             if c = CHR 0x22
             then (case tail of
                     [] \<Rightarrow> Other
                   | t # ts \<Rightarrow>
                       if tail = '']'' then Reads v
                       else if t = CHR 0x22 then Rejected
                       else Other)
             else if c = CHR 0x0A \<or> c = CHR 0x0D \<or> c = CHR 0x0C then Rejected
             else Other)"

fun stripPrefix :: "string \<Rightarrow> string \<Rightarrow> string option" where
  "stripPrefix [] s = Some s"
| "stripPrefix (p # ps) [] = None"
| "stripPrefix (p # ps) (c # cs) = (if p = c then stripPrefix ps cs else None)"

definition readSelector :: "string \<Rightarrow> selector_reading" where
  "readSelector sel =
     (case stripPrefix (''.tab-button[data-tab='' @ [CHR 0x22]) sel of
        None \<Rightarrow> Other
      | Some input \<Rightarrow> readAttrString input)"

text \<open>The engine for selectors the model does not read itself: it throws or returns a
  node or null. Every theorem below holds whatever this engine does.\<close>

type_synonym selector_engine = "string \<Rightarrow> document \<Rightarrow> js_error + nat option"

text \<open>The first tab button in tree order whose \<^verbatim>\<open>data-tab\<close> is \<open>v\<close>: what the selector
  \<^verbatim>\<open>.tab-button[data-tab="v"]\<close> finds.\<close>

definition firstTabButton :: "string \<Rightarrow> document \<Rightarrow> nat option" where
  "firstTabButton v doc =
     find (\<lambda>i. hasClass ''tab-button'' (doc ! i) \<and> dataTab (doc ! i) = Some v) [0..<length doc]"

text \<open>\<^verbatim>\<open>document.querySelector(sel)\<close>: the first matching element in tree order, null when
  there is none, a \<^verbatim>\<open>SyntaxError\<close> when the selector is invalid.\<close>

definition querySelector :: "selector_engine \<Rightarrow> string \<Rightarrow> document \<Rightarrow> js_error + nat option" where
  "querySelector engine sel doc =
     (case readSelector sel of
        Reads v \<Rightarrow> Inr (firstTabButton v doc)
      | Rejected \<Rightarrow> Inl SyntaxError
      | Other \<Rightarrow> engine sel doc)"

text \<open>A text free of the characters that a selector string cannot hold as they are.\<close>

definition cssPlain :: "string \<Rightarrow> bool" where
  "cssPlain s = list_all (\<lambda>c. \<not> cssSpecial c) s"

subsection \<open>The click handlers\<close>

text \<open>
  A handler that throws leaves the changes it made before the throw in the document, so a
  handler returns the document together with the exception, if any.

  tabs.js 8-23:
  \<^verbatim>\<open>
  button.addEventListener('click', function() {
      const tabToShow = this.getAttribute('data-tab');
      document.querySelectorAll('.tab-button').forEach(btn => { btn.classList.remove('active'); });
      document.querySelectorAll('.tab-content').forEach(content => { content.classList.remove('active'); });
      this.classList.add('active');
      document.getElementById(tabToShow).classList.add('active');
  });
  \<close>
\<close>

definition tabsClick :: "nat \<Rightarrow> document \<Rightarrow> document \<times> js_error option" where
  "tabsClick this doc =
     (let tabToShow = dataTab (doc ! this);
          d1 = forEach (querySelectorAll ''tab-button'' doc) (classList_remove ''active'') doc;
          d2 = forEach (querySelectorAll ''tab-content'' d1) (classList_remove ''active'') d1;
          d3 = d2[this := classList_add ''active'' (d2 ! this)]
      in case getElementById (jsString tabToShow) d3 of
           None \<Rightarrow> (d3, Some TypeError)
         | Some content \<Rightarrow> (d3[content := classList_add ''active'' (d3 ! content)], None))"

text \<open>
  script.js 8-18, the same handler over the node lists \<open>tabButtons\<close> and \<open>tabContents\<close> that
  the load handler captured:
  \<^verbatim>\<open>
  button.addEventListener('click', () => {
      const tabId = button.getAttribute('data-tab');
      tabButtons.forEach(btn => btn.classList.remove('active'));
      tabContents.forEach(content => content.classList.remove('active'));
      button.classList.add('active');
      document.getElementById(tabId).classList.add('active');
  });
  \<close>
\<close>

definition scriptClick :: "nat list \<Rightarrow> nat list \<Rightarrow> nat \<Rightarrow> document \<Rightarrow> document \<times> js_error option" where
  "scriptClick tabButtons tabContents button doc =
     (let tabId = dataTab (doc ! button);
          d1 = forEach tabButtons (classList_remove ''active'') doc;
          d2 = forEach tabContents (classList_remove ''active'') d1;
          d3 = d2[button := classList_add ''active'' (d2 ! button)]
      in case getElementById (jsString tabId) d3 of
           None \<Rightarrow> (d3, Some TypeError)
         | Some content \<Rightarrow> (d3[content := classList_add ''active'' (d3 ! content)], None))"

text \<open>
  script.js 38-52:
  \<^verbatim>\<open>
  function activateTab(tabId) {
      tabButtons.forEach(btn => btn.classList.remove('active'));
      tabContents.forEach(content => content.classList.remove('active'));
      const targetButton = document.querySelector(`.tab-button[data-tab="${tabId}"]`);
      if (targetButton) { targetButton.classList.add('active'); }
      const targetContent = document.getElementById(tabId);
      if (targetContent) { targetContent.classList.add('active'); }
  }
  \<close>
\<close>

definition activateTab ::
  "selector_engine \<Rightarrow> nat list \<Rightarrow> nat list \<Rightarrow> string \<Rightarrow> document \<Rightarrow> document \<times> js_error option" where
  "activateTab engine tabButtons tabContents tabId doc =
     (let d1 = forEach tabButtons (classList_remove ''active'') doc;
          d2 = forEach tabContents (classList_remove ''active'') d1
      in case querySelector engine (tabButtonSelector tabId) d2 of
           Inl e \<Rightarrow> (d2, Some e)
         | Inr targetButton \<Rightarrow>
             (let d3 = (case targetButton of
                          None \<Rightarrow> d2
                        | Some b \<Rightarrow> d2[b := classList_add ''active'' (d2 ! b)])
              in case getElementById tabId d3 of
                   None \<Rightarrow> (d3, None)
                 | Some c \<Rightarrow> (d3[c := classList_add ''active'' (d3 ! c)], None)))"

text \<open>script.js 62-65: \<^verbatim>\<open>const tabId = button.getAttribute('data-tab'); activateTab(tabId);\<close>\<close>

definition activateClick ::
  "selector_engine \<Rightarrow> nat list \<Rightarrow> nat list \<Rightarrow> nat \<Rightarrow> document \<Rightarrow> document \<times> js_error option" where
  "activateClick engine tabButtons tabContents button doc =
     activateTab engine tabButtons tabContents (jsString (dataTab (doc ! button))) doc"

text \<open>
  index.html 404-425. \<open>currentTarget\<close> is \<^verbatim>\<open>event.currentTarget\<close>: the button for a click, and
  no element (the window, which has no class list) when the load listener calls
  \<^verbatim>\<open>openTab('latest')\<close>. The call of \<^verbatim>\<open>notifyParentOfResize\<close> that ends the function posts a
  message to the parent frame and touches no element; it is left out.
  \<^verbatim>\<open>
  function openTab(tabId) {
      var tabContents = document.getElementsByClassName("tab-content");
      for (var i = 0; i < tabContents.length; i++) { tabContents[i].classList.remove("active"); }
      var tabButtons = document.getElementsByClassName("tab-button");
      for (var i = 0; i < tabButtons.length; i++) { tabButtons[i].classList.remove("active"); }
      document.getElementById(tabId).classList.add("active");
      event.currentTarget.classList.add("active");
      notifyParentOfResize();
  }
  \<close>
\<close>

definition openTab :: "string \<Rightarrow> nat option \<Rightarrow> document \<Rightarrow> document \<times> js_error option" where
  "openTab tabId currentTarget doc =
     (let d1 = forEach (querySelectorAll ''tab-content'' doc) (classList_remove ''active'') doc;
          d2 = forEach (querySelectorAll ''tab-button'' d1) (classList_remove ''active'') d1
      in case getElementById tabId d2 of
           None \<Rightarrow> (d2, Some TypeError)
         | Some c \<Rightarrow>
             (let d3 = d2[c := classList_add ''active'' (d2 ! c)]
              in case currentTarget of
                   None \<Rightarrow> (d3, Some TypeError)
                 | Some b \<Rightarrow> (d3[b := classList_add ''active'' (d3 ! b)], None)))"

text \<open>A click on a button of index.html runs its \<^verbatim>\<open>onclick="openTab('...')"\<close>.\<close>

definition inlineClick :: "nat \<Rightarrow> document \<Rightarrow> document \<times> js_error option" where
  "inlineClick button doc =
     (case onclickTab (doc ! button) of
        None \<Rightarrow> (doc, None)
      | Some tabId \<Rightarrow> openTab tabId (Some button) doc)"

subsection \<open>The load handlers\<close>

text \<open>
  A page is its document, the session storage and the click listeners attached so far,
  each with the node it is attached to. A listener of script.js closes over the node lists
  its load handler read.
\<close>

datatype listener =
    TabsListener
  | ScriptListener "nat list" "nat list"
  | ActivateListener "nat list" "nat list"

record page =
  pageDocument :: document
  sessionStorage :: "string \<rightharpoonup> string"
  listeners :: "(nat \<times> listener) list"

fun runListener :: "selector_engine \<Rightarrow> listener \<Rightarrow> nat \<Rightarrow> document \<Rightarrow> document \<times> js_error option" where
  "runListener engine TabsListener button doc = tabsClick button doc"
| "runListener engine (ScriptListener tabButtons tabContents) button doc =
     scriptClick tabButtons tabContents button doc"
| "runListener engine (ActivateListener tabButtons tabContents) button doc =
     activateClick engine tabButtons tabContents button doc"

text \<open>\<^verbatim>\<open>tabButtons.forEach(button => button.addEventListener('click', h))\<close>\<close>

definition addClickListeners :: "nat list \<Rightarrow> listener \<Rightarrow> page \<Rightarrow> page" where
  "addClickListeners nodes h pg = pg\<lparr>listeners := listeners pg @ map (\<lambda>b. (b, h)) nodes\<rparr>"

text \<open>tabs.js 2-25.\<close>

definition tabsLoaded :: "page \<Rightarrow> page" where
  "tabsLoaded pg = addClickListeners (querySelectorAll ''tab-button'' (pageDocument pg)) TabsListener pg"

text \<open>script.js 2-30.\<close>

definition scriptLoaded :: "page \<Rightarrow> page" where
  "scriptLoaded pg =
     (let tabButtons = querySelectorAll ''tab-button'' (pageDocument pg);
          tabContents = querySelectorAll ''tab-content'' (pageDocument pg);
          p1 = addClickListeners tabButtons (ScriptListener tabButtons tabContents) pg
      in p1\<lparr>pageDocument := styleFailedCells (pageDocument p1)\<rparr>)"

text \<open>
  script.js 55-58, the first statement of the second load handler:
  \<^verbatim>\<open>
  if (sessionStorage.getItem('activateStatsTab') === 'true') {
      activateTab('stats');
      sessionStorage.removeItem('activateStatsTab');
  }
  \<close>
  If \<open>activateTab\<close> threw, the removal would not run.
\<close>

definition checkActivateStats ::
  "selector_engine \<Rightarrow> nat list \<Rightarrow> nat list \<Rightarrow> page \<Rightarrow> page \<times> js_error option" where
  "checkActivateStats engine tabButtons tabContents pg =
     (if sessionStorage pg ''activateStatsTab'' = Some ''true''
      then (case activateTab engine tabButtons tabContents ''stats'' (pageDocument pg) of
              (d, Some e) \<Rightarrow> (pg\<lparr>pageDocument := d\<rparr>, Some e)
            | (d, None) \<Rightarrow>
                (pg\<lparr>pageDocument := d, sessionStorage := (sessionStorage pg)(''activateStatsTab'' := None)\<rparr>,
                 None))
      else (pg, None))"

text \<open>script.js 32-77: the check above, then the click handlers, then the styling pass. An
  exception ends the handler where it is thrown.\<close>

definition activateLoaded :: "selector_engine \<Rightarrow> page \<Rightarrow> page \<times> js_error option" where
  "activateLoaded engine pg =
     (let tabButtons = querySelectorAll ''tab-button'' (pageDocument pg);
          tabContents = querySelectorAll ''tab-content'' (pageDocument pg)
      in case checkActivateStats engine tabButtons tabContents pg of
           (p1, Some e) \<Rightarrow> (p1, Some e)
         | (p1, None) \<Rightarrow>
             (let p2 = addClickListeners tabButtons (ActivateListener tabButtons tabContents) p1
              in (p2\<lparr>pageDocument := styleFailedCells (pageDocument p2)\<rparr>, None)))"


section \<open>The weekly winner computation\<close>

text \<open>
  The spec's \<^verbatim>\<open>computeWeeklyWinners\<close> is the computation of \<^verbatim>\<open>update_season_winners.py\<close>,
  which the README names and the source files do not contain. The definitions of this
  section follow section 3 (data model) and section 4.1 (contract and algorithm) of the
  spec. A date is a day number; a score and a total are integers.
\<close>

text \<open>Modelled from the spec: the \<^verbatim>\<open>ScoreRecord\<close> of section 3, the input of
  \<^verbatim>\<open>computeWeeklyWinners\<close> (absent from the sources).\<close>

record ScoreRecord =
  player :: string
  league :: string
  date :: int
  score :: int

text \<open>Modelled from the spec: the \<^verbatim>\<open>WeeklyWindow\<close> of section 3, \<^verbatim>\<open>{ start, end }\<close>, of
  \<^verbatim>\<open>computeWeeklyWinners\<close> (absent from the sources).\<close>

record WeeklyWindow =
  windowStart :: int
  windowEnd :: int

text \<open>Modelled from the spec: the \<^verbatim>\<open>WeeklyStanding\<close> of section 3, the output of
  \<^verbatim>\<open>computeWeeklyWinners\<close> (absent from the sources); \<open>standingPlayer\<close> and
  \<open>standingLeague\<close> are its \<^verbatim>\<open>player\<close> and \<^verbatim>\<open>league\<close>.\<close>

record WeeklyStanding =
  standingPlayer :: string
  standingLeague :: string
  window :: WeeklyWindow
  total :: int
  gameCount :: nat
  isWinner :: bool

text \<open>Modelled from the spec: step 1 of the algorithm of \<^verbatim>\<open>computeWeeklyWinners\<close> (absent
  from the sources), "filter records to the given league and date range", the range
  inclusive at both ends.\<close>

definition inWindow :: "string \<Rightarrow> WeeklyWindow \<Rightarrow> ScoreRecord \<Rightarrow> bool" where
  "inWindow lg w r = (league r = lg \<and> windowStart w \<le> date r \<and> date r \<le> windowEnd w)"

text \<open>Modelled from the spec: step 2 of \<^verbatim>\<open>computeWeeklyWinners\<close> (absent from the sources),
  "group remaining records by player": the players that have a record left, each once, in
  the order of their first record.\<close>

definition playersConsidered :: "ScoreRecord list \<Rightarrow> string \<Rightarrow> WeeklyWindow \<Rightarrow> string list" where
  "playersConsidered records lg w = remdups (map player (filter (inWindow lg w) records))"

text \<open>Modelled from the spec: step 2 of \<^verbatim>\<open>computeWeeklyWinners\<close> (absent from the sources):
  the scores of one player's group.\<close>

definition playerScores :: "ScoreRecord list \<Rightarrow> string \<Rightarrow> WeeklyWindow \<Rightarrow> string \<Rightarrow> int list" where
  "playerScores records lg w p =
     map score (filter (\<lambda>r. player r = p) (filter (inWindow lg w) records))"

text \<open>Modelled from the spec: step 3 of \<^verbatim>\<open>computeWeeklyWinners\<close> (absent from the sources),
  the groups "with at least 5 records"; the others are "excluded from winner eligibility but
  may still be reported with isWinner = false".\<close>

definition eligible :: "int list \<Rightarrow> bool" where
  "eligible scores = (5 \<le> length scores)"

text \<open>Modelled from the spec: step 3 of \<^verbatim>\<open>computeWeeklyWinners\<close> (absent from the sources),
  "sort scores ascending (best-first) and sum the lowest 5". The spec gives no total for a
  reported group of fewer than 5 records; the same expression then sums all its scores.\<close>

definition bestFive :: "int list \<Rightarrow> int" where
  "bestFive scores = sum_list (take 5 (sort scores))"

text \<open>Modelled from the spec: step 4 of \<^verbatim>\<open>computeWeeklyWinners\<close> (absent from the sources),
  "minTotal = minimum summed value among eligible players"; there is none when no group is
  eligible.\<close>

definition minTotal :: "int list list \<Rightarrow> int option" where
  "minTotal groups =
     (case filter eligible groups of
        [] \<Rightarrow> None
      | g # gs \<Rightarrow> Some (fold min (map bestFive gs) (bestFive g)))"

text \<open>Modelled from the spec: the \<^verbatim>\<open>WeeklyStanding\<close> of one player in
  \<^verbatim>\<open>computeWeeklyWinners\<close> (absent from the sources): "every eligible player whose total
  equals minTotal is marked isWinner = true (co-winners); all others isWinner = false".\<close>

definition standingOf ::
  "ScoreRecord list \<Rightarrow> string \<Rightarrow> WeeklyWindow \<Rightarrow> int option \<Rightarrow> string \<Rightarrow> WeeklyStanding" where
  "standingOf records lg w mt p =
     (let scores = playerScores records lg w p
      in \<lparr>standingPlayer = p, standingLeague = lg, window = w,
          total = bestFive scores, gameCount = length scores,
          isWinner = (eligible scores \<and> mt = Some (bestFive scores))\<rparr>)"

text \<open>Modelled from the spec: \<^verbatim>\<open>computeWeeklyWinners(records, league, window)\<close> (absent from
  the sources), steps 1 to 5 of section 4.1; step 5 is "return one WeeklyStanding per player
  considered, ordered by ascending total (ties broken by player name)". Names are compared
  character by character. These are the steps alone: the validation error that section 7
  asks for on malformed records has no place in the contract of section 4.1 and is not
  modelled, so the standings are computed from the records as they are given.\<close>

definition computeWeeklyWinners ::
  "ScoreRecord list \<Rightarrow> string \<Rightarrow> WeeklyWindow \<Rightarrow> WeeklyStanding list" where
  "computeWeeklyWinners records lg w =
     (let players = playersConsidered records lg w;
          mt = minTotal (map (playerScores records lg w) players)
      in sort_key (\<lambda>s. (total s, standingPlayer s)) (map (standingOf records lg w mt) players))"

subsection \<open>A week of records\<close>

text \<open>A week like the README's (August 4 to 10), with days as numbers: Brent and Malia tie
  at 14 (Brent has six scores, of which the 6 does not count), Zed has four records in the
  window and one after it, Ann totals 21, and Vox plays in another league.\<close>

definition aug4to10 :: WeeklyWindow where
  "aug4to10 = \<lparr>windowStart = 4, windowEnd = 10\<rparr>"

definition played :: "string \<Rightarrow> string \<Rightarrow> (int \<times> int) list \<Rightarrow> ScoreRecord list" where
  "played p lg days = map (\<lambda>(d, s). \<lparr>player = p, league = lg, date = d, score = s\<rparr>) days"

definition sampleRecords :: "ScoreRecord list" where
  "sampleRecords =
     played ''Brent'' ''Warriorz'' [(4, 3), (5, 3), (6, 3), (7, 3), (8, 2), (9, 6)] @
     played ''Malia'' ''Warriorz'' [(4, 2), (5, 3), (6, 3), (7, 3), (8, 3)] @
     played ''Zed'' ''Warriorz'' [(4, 1), (5, 1), (6, 1), (7, 1), (11, 1)] @
     played ''Ann'' ''Warriorz'' [(4, 5), (5, 5), (6, 5), (7, 3), (8, 3)] @
     played ''Vox'' ''PAL'' [(4, 2), (5, 2), (6, 2), (7, 2), (8, 2)]"

section \<open>Example documents\<close>

text \<open>An element with the given id, classes, \<^verbatim>\<open>data-tab\<close> and text, no inline handler and
  no inline style.\<close>

definition node :: "string option \<Rightarrow> string list \<Rightarrow> string option \<Rightarrow> string \<Rightarrow> element" where
  "node i cs t txt =
     \<lparr>idAttr = i, classList = cs, dataTab = t, onclickTab = None, textContent = txt,
      style = \<lparr>backgroundColor = [], color = [], fontWeight = []\<rparr>\<rparr>"

text \<open>Three cells of a score table: a failed-attempts cell reading 0, one reading 3, and a
  cell of another class reading 0.\<close>

definition sampleCells :: document where
  "sampleCells =
     [node None [''failed-attempts''] None ''0'',
      node None [''failed-attempts''] None ''3'',
      node None [''score''] None ''0'']"

text \<open>
  A page with two tabs, "latest" shown. Its buttons carry both a \<^verbatim>\<open>data-tab\<close> attribute (as
  the pages of tabs.js and script.js do) and an inline \<^verbatim>\<open>openTab\<close> call (as index.html does).
  Nodes 0 and 1 are the buttons, nodes 2 and 3 the contents, node 4 a date button.
\<close>

definition tabButton :: "string list \<Rightarrow> string \<Rightarrow> string \<Rightarrow> element" where
  "tabButton cs tab label = (node None cs (Some tab) label)\<lparr>onclickTab := Some tab\<rparr>"

definition sampleTabs :: document where
  "sampleTabs =
     [tabButton [''tab-button'', ''active''] ''latest'' ''Latest Scores'',
      tabButton [''tab-button''] ''stats'' ''Stats'',
      node (Some ''latest'') [''tab-content'', ''active''] None ''Jul 22'',
      node (Some ''stats'') [''tab-content''] None ''0'',
      node None [''date-button'', ''active''] None ''Jul 22'']"

text \<open>A page whose navigation is repeated: two buttons for the one tab "stats".\<close>

definition twinTabs :: document where
  "twinTabs =
     [tabButton [''tab-button''] ''stats'' ''Stats'',
      tabButton [''tab-button''] ''stats'' ''Stats (again)'',
      node (Some ''stats'') [''tab-content''] None ''0'']"

text \<open>A page where one element is both a tab button and a tab content.\<close>

definition overlapTabs :: document where
  "overlapTabs =
     [tabButton [''tab-button'', ''tab-content''] ''more'' ''More'',
      node (Some ''more'') [''tab-content''] None ''...'']"

text \<open>A page with no tab "ghost".\<close>

definition ghostTabs :: document where
  "ghostTabs =
     [tabButton [''tab-button'', ''active''] ''ghost'' ''Ghost'',
      node (Some ''latest'') [''tab-content'', ''active''] None ''Jul 22'']"

text \<open>A page whose one tab is named by a double quote, in the button's \<^verbatim>\<open>data-tab\<close> and in
  the content's id.\<close>

definition quoteTabs :: document where
  "quoteTabs =
     [tabButton [''tab-button''] [CHR 0x22] ''Quote'',
      node (Some [CHR 0x22]) [''tab-content''] None ''...'']"

text \<open>An engine that finds nothing and never throws, for the closed examples.\<close>

definition nullEngine :: selector_engine where
  "nullEngine sel doc = Inr None"


definition plainPage :: page where
  "plainPage = \<lparr>pageDocument = sampleTabs, sessionStorage = Map.empty, listeners = []\<rparr>"

section \<open>Properties of the document model\<close>

lemma length_forEach: "length (forEach nodes f doc) = length doc"
  unfolding forEach_def by (induction nodes arbitrary: doc) simp_all

lemma forEach_nth:
  "distinct nodes \<Longrightarrow> i < length doc \<Longrightarrow>
   forEach nodes f doc ! i = (if i \<in> set nodes then f (doc ! i) else doc ! i)"
  unfolding forEach_def
proof (induction nodes arbitrary: doc)
  case Nil
  then show ?case by simp
next
  case (Cons n nodes)
  have "foldl (\<lambda>d i. d[i := f (d ! i)]) (doc[n := f (doc ! n)]) nodes ! i =
        (if i \<in> set nodes then f (doc[n := f (doc ! n)] ! i) else doc[n := f (doc ! n)] ! i)"
    using Cons.IH [of "doc[n := f (doc ! n)]"] Cons.prems by simp
  then show ?case using Cons.prems by (cases "i = n") (auto simp: nth_list_update)
qed

lemma distinct_querySelectorAll: "distinct (querySelectorAll c doc)"
  by (simp add: querySelectorAll_def)

lemma set_querySelectorAll:
  "set (querySelectorAll c doc) = {i. i < length doc \<and> c \<in> set (classList (doc ! i))}"
  by (auto simp: querySelectorAll_def)

lemma styleFailedCells_nth:
  "i < length doc \<Longrightarrow>
   styleFailedCells doc ! i =
     (if ''failed-attempts'' \<in> set (classList (doc ! i)) then styleCell (doc ! i) else doc ! i)"
  by (simp add: styleFailedCells_def forEach_nth distinct_querySelectorAll set_querySelectorAll)

text \<open>
  C7. After the styling pass the document has the same elements; a cell of class
  \<^verbatim>\<open>failed-attempts\<close> whose text is exactly \<^verbatim>\<open>"0"\<close> has background colour
  \<^verbatim>\<open>transparent\<close>, colour \<^verbatim>\<open>#d7dadc\<close> and font weight \<^verbatim>\<open>normal\<close> and is otherwise as
  before; every other element (a cell with another text, or an element without the class)
  is exactly as before; no element's text changes.
\<close>

theorem styleFailedCells_blanks_exactly_zero_cells:
  "length (styleFailedCells doc) = length doc \<and>
   (\<forall>i < length doc.
      textContent (styleFailedCells doc ! i) = textContent (doc ! i) \<and>
      (if ''failed-attempts'' \<in> set (classList (doc ! i)) \<and> textContent (doc ! i) = ''0''
       then styleFailedCells doc ! i =
              (doc ! i)\<lparr>style := \<lparr>backgroundColor = ''transparent'', color = ''#d7dadc'',
                                  fontWeight = ''normal''\<rparr>\<rparr>
       else styleFailedCells doc ! i = doc ! i))"
  by (simp add: styleFailedCells_nth styleCell_def)
    (simp add: styleFailedCells_def length_forEach)

theorem styleFailedCells_blanks_exactly_zero_cells_witness:
  "length (styleFailedCells sampleCells) = 3 \<and>
   style (styleFailedCells sampleCells ! 0) =
     \<lparr>backgroundColor = ''transparent'', color = ''#d7dadc'', fontWeight = ''normal''\<rparr> \<and>
   textContent (styleFailedCells sampleCells ! 0) = ''0'' \<and>
   styleFailedCells sampleCells ! 1 = sampleCells ! 1 \<and>
   styleFailedCells sampleCells ! 2 = sampleCells ! 2"
  using styleFailedCells_blanks_exactly_zero_cells [of sampleCells, THEN conjunct1]
    styleFailedCells_blanks_exactly_zero_cells [of sampleCells, THEN conjunct2, rule_format, of 0]
    styleFailedCells_blanks_exactly_zero_cells [of sampleCells, THEN conjunct2, rule_format, of 1]
    styleFailedCells_blanks_exactly_zero_cells [of sampleCells, THEN conjunct2, rule_format, of 2]
  by (simp add: sampleCells_def node_def)

subsection \<open>Classes, attributes and lookups under the handlers' updates\<close>

lemma hasClass_remove [simp]: "hasClass c (classList_remove a e) \<longleftrightarrow> c \<noteq> a \<and> hasClass c e"
  by (auto simp: hasClass_def classList_remove_def)

lemma hasClass_add [simp]: "hasClass c (classList_add a e) \<longleftrightarrow> c = a \<or> hasClass c e"
  by (auto simp: hasClass_def classList_add_def)

lemma fields_remove [simp]:
  "idAttr (classList_remove a e) = idAttr e" "dataTab (classList_remove a e) = dataTab e"
  "onclickTab (classList_remove a e) = onclickTab e" "textContent (classList_remove a e) = textContent e"
  "style (classList_remove a e) = style e"
  by (simp_all add: classList_remove_def)

lemma fields_add [simp]:
  "idAttr (classList_add a e) = idAttr e" "dataTab (classList_add a e) = dataTab e"
  "onclickTab (classList_add a e) = onclickTab e" "textContent (classList_add a e) = textContent e"
  "style (classList_add a e) = style e"
  by (simp_all add: classList_add_def)

lemma differOnlyInActive_refl [simp]: "differOnlyInActive e e"
  by (simp add: differOnlyInActive_def)

lemma differOnlyInActive_remove [simp]:
  "differOnlyInActive e (classList_remove ''active'' e') \<longleftrightarrow> differOnlyInActive e e'"
  by (simp add: differOnlyInActive_def classList_remove_def)

lemma differOnlyInActive_add [simp]:
  "differOnlyInActive e (classList_add ''active'' e') \<longleftrightarrow> differOnlyInActive e e'"
  by (simp add: differOnlyInActive_def classList_add_def)

lemma differOnlyInActive_fields:
  assumes "differOnlyInActive e e'"
  shows "idAttr e' = idAttr e" "dataTab e' = dataTab e" "onclickTab e' = onclickTab e"
    "textContent e' = textContent e" "style e' = style e"
    "c \<noteq> ''active'' \<Longrightarrow> hasClass c e' = hasClass c e"
proof -
  let ?n = "\<lambda>e. e\<lparr>classList := removeAll ''active'' (classList e)\<rparr>"
  have eq: "?n e' = ?n e" using assms by (simp add: differOnlyInActive_def)
  have "idAttr (?n e') = idAttr (?n e)" by (simp only: eq)
  then show "idAttr e' = idAttr e" by simp
  have "dataTab (?n e') = dataTab (?n e)" by (simp only: eq)
  then show "dataTab e' = dataTab e" by simp
  have "onclickTab (?n e') = onclickTab (?n e)" by (simp only: eq)
  then show "onclickTab e' = onclickTab e" by simp
  have "textContent (?n e') = textContent (?n e)" by (simp only: eq)
  then show "textContent e' = textContent e" by simp
  have "style (?n e') = style (?n e)" by (simp only: eq)
  then show "style e' = style e" by simp
  have "classList (?n e') = classList (?n e)" by (simp only: eq)
  then have "set (removeAll ''active'' (classList e')) = set (removeAll ''active'' (classList e))" by simp
  then show "c \<noteq> ''active'' \<Longrightarrow> hasClass c e' = hasClass c e"
    by (auto simp: hasClass_def)
qed

text \<open>Lookups see only ids, classes other than active, and data-tab.\<close>

lemma find_upt_cong:
  assumes "\<And>i. i < n \<Longrightarrow> P i = Q i"
  shows "find P [0..<n] = find Q [0..<n]"
  by (rule find_cong) (use assms in auto)

lemma getElementById_cong:
  assumes "length d' = length d" and "\<And>i. i < length d \<Longrightarrow> idAttr (d' ! i) = idAttr (d ! i)"
  shows "getElementById s d' = getElementById s d"
  unfolding getElementById_def using assms by (auto intro!: find_upt_cong)

lemma querySelectorAll_cong:
  assumes "length d' = length d" and "\<And>i. i < length d \<Longrightarrow> hasClass c (d' ! i) = hasClass c (d ! i)"
  shows "querySelectorAll c d' = querySelectorAll c d"
  unfolding querySelectorAll_def using assms by (auto simp: hasClass_def intro!: filter_cong)

lemma firstTabButton_cong:
  assumes "length d' = length d"
    and "\<And>i. i < length d \<Longrightarrow> hasClass ''tab-button'' (d' ! i) = hasClass ''tab-button'' (d ! i)"
    and "\<And>i. i < length d \<Longrightarrow> dataTab (d' ! i) = dataTab (d ! i)"
  shows "firstTabButton v d' = firstTabButton v d"
  unfolding firstTabButton_def using assms by (auto intro!: find_upt_cong)

text \<open>Removing active from all tab buttons and all tab contents.\<close>

lemma classList_remove_idem [simp]: "classList_remove a (classList_remove a e) = classList_remove a e"
  by (simp add: classList_remove_def)

lemma clear_buttons_contents_nth:
  assumes "i < length doc"
  shows "forEach (querySelectorAll ''tab-content'' doc) (classList_remove ''active'')
           (forEach (querySelectorAll ''tab-button'' doc) (classList_remove ''active'') doc) ! i
         = cleared doc i"
  using assms
  by (simp add: forEach_nth length_forEach distinct_querySelectorAll set_querySelectorAll
      cleared_def hasClass_def)

lemma clear_contents_buttons_nth:
  assumes "i < length doc"
  shows "forEach (querySelectorAll ''tab-button'' doc) (classList_remove ''active'')
           (forEach (querySelectorAll ''tab-content'' doc) (classList_remove ''active'') doc) ! i
         = cleared doc i"
  using assms
  by (simp add: forEach_nth length_forEach distinct_querySelectorAll set_querySelectorAll
      cleared_def hasClass_def)

lemma querySelectorAll_forEach_remove:
  assumes "c \<noteq> a"
  shows "querySelectorAll c (forEach (querySelectorAll c' doc) (classList_remove a) doc)
         = querySelectorAll c doc"
proof (rule querySelectorAll_cong)
  show "length (forEach (querySelectorAll c' doc) (classList_remove a) doc) = length doc"
    by (simp add: length_forEach)
  fix i assume "i < length doc"
  then show "hasClass c (forEach (querySelectorAll c' doc) (classList_remove a) doc ! i) = hasClass c (doc ! i)"
    using assms by (simp add: forEach_nth distinct_querySelectorAll)
qed

lemma classList_add_idem [simp]: "classList_add a (classList_add a e) = classList_add a e"
  by (simp add: classList_add_def)

lemma getElementById_Some:
  assumes "getElementById s d = Some c"
  shows "c < length d" and "idAttr (d ! c) = Some s"
proof -
  have f: "find (\<lambda>i. idAttr (d ! i) = Some s) [0..<length d] = Some c"
    using assms by (simp add: getElementById_def split: if_splits)
  then show "c < length d" by (auto simp: find_Some_iff)
  from f show "idAttr (d ! c) = Some s" by (auto simp: find_Some_iff)
qed

lemma firstTabButton_Some:
  assumes "firstTabButton v d = Some b"
  shows "b < length d" and "hasClass ''tab-button'' (d ! b)" and "dataTab (d ! b) = Some v"
    and "\<And>j. j < b \<Longrightarrow> \<not> (hasClass ''tab-button'' (d ! j) \<and> dataTab (d ! j) = Some v)"
proof -
  obtain k where k: "k < length [0..<length d]" "[0..<length d] ! k = b"
      "hasClass ''tab-button'' (d ! b) \<and> dataTab (d ! b) = Some v"
      "\<forall>j<k. \<not> (hasClass ''tab-button'' (d ! ([0..<length d] ! j)) \<and> dataTab (d ! ([0..<length d] ! j)) = Some v)"
    using assms unfolding firstTabButton_def find_Some_iff by blast
  then have kb: "k = b" "b < length d" by auto
  show "b < length d" by (rule kb)
  show "hasClass ''tab-button'' (d ! b)" "dataTab (d ! b) = Some v" using k(3) by auto
  show "\<not> (hasClass ''tab-button'' (d ! j) \<and> dataTab (d ! j) = Some v)" if "j < b" for j
    using k(4) that kb by auto
qed

lemma firstTabButton_self:
  assumes "b < length d" and "hasClass ''tab-button'' (d ! b)" and "dataTab (d ! b) = Some v"
    and "\<forall>j<b. \<not> (hasClass ''tab-button'' (d ! j) \<and> dataTab (d ! j) = Some v)"
  shows "firstTabButton v d = Some b"
  unfolding firstTabButton_def find_Some_iff
  using assms by (intro exI [of _ b]) auto

text \<open>The selector built from a plain text reads as intended.\<close>

lemma stripPrefix_append: "stripPrefix p (p @ s) = Some s"
  by (induction p) simp_all

lemma readAttrString_plain:
  assumes "cssPlain v"
  shows "readAttrString (v @ [CHR 0x22] @ '']'') = Reads v"
proof -
  have ns: "\<And>c. c \<in> set v \<Longrightarrow> \<not> cssSpecial c"
    using assms by (simp add: cssPlain_def list_all_iff)
  have q: "cssSpecial (CHR 0x22)" by (simp add: cssSpecial_def)
  have t: "takeWhile (\<lambda>c. \<not> cssSpecial c) (v @ [CHR 0x22] @ '']'') = v"
    using ns q by (simp add: takeWhile_append2)
  have d: "dropWhile (\<lambda>c. \<not> cssSpecial c) (v @ [CHR 0x22] @ '']'') = [CHR 0x22] @ '']''"
    using ns q by (simp add: dropWhile_append2)
  show ?thesis unfolding readAttrString_def Let_def t d by simp
qed

lemma readSelector_plain:
  assumes "cssPlain v"
  shows "readSelector (tabButtonSelector v) = Reads v"
proof -
  have "tabButtonSelector v = (''.tab-button[data-tab='' @ [CHR 0x22]) @ (v @ [CHR 0x22] @ '']'')"
    by (simp add: tabButtonSelector_def)
  then show ?thesis
    unfolding readSelector_def by (simp only: stripPrefix_append option.case readAttrString_plain [OF assms])
qed

lemma querySelector_plain:
  assumes "cssPlain v"
  shows "querySelector engine (tabButtonSelector v) d = Inr (firstTabButton v d)"
  by (simp add: querySelector_def readSelector_plain [OF assms] firstTabButton_def hasClass_def)

text \<open>A quote in the text ends the string early; a second quote right after it is refused.\<close>

lemma querySelector_quote:
  "querySelector engine (tabButtonSelector [CHR 0x22]) d = Inl SyntaxError"
  by (simp add: querySelector_def readSelector_def tabButtonSelector_def readAttrString_def cssSpecial_def)

lemma switchedI:
  assumes len: "length d' = length doc"
    and nth: "\<And>i. i < length doc \<Longrightarrow>
           d' ! i = (if B = Some i \<or> T = Some i then classList_add ''active'' (cleared doc i)
                     else cleared doc i)"
  shows "switched doc B T d'"
  unfolding switched_def
proof (intro conjI allI impI)
  show "length d' = length doc" by (rule len)
next
  fix i assume i: "i < length doc"
  show "differOnlyInActive (doc ! i) (d' ! i)"
    by (simp add: nth [OF i] cleared_def)
next
  fix i assume i: "i < length doc"
  show "hasClass ''active'' (d' ! i) \<longleftrightarrow>
          B = Some i \<or> T = Some i \<or>
          (hasClass ''active'' (doc ! i) \<and> \<not> hasClass ''tab-button'' (doc ! i) \<and>
           \<not> hasClass ''tab-content'' (doc ! i))"
    by (auto simp add: nth [OF i] cleared_def)
qed

lemma switched_atMostOne:
  assumes sw: "switched doc B T d'" and apart: "buttonsApartFromContents doc"
    and B: "\<And>b. B = Some b \<Longrightarrow> b < length doc \<Longrightarrow> hasClass ''tab-button'' (doc ! b)"
  shows "atMostOneActiveContent d'"
  unfolding atMostOneActiveContent_def
proof (intro allI impI)
  fix i j
  assume i: "i < length d'" and j: "j < length d'"
    and h: "hasClass ''tab-content'' (d' ! i) \<and> hasClass ''active'' (d' ! i) \<and>
            hasClass ''tab-content'' (d' ! j) \<and> hasClass ''active'' (d' ! j)"
  have len: "length d' = length doc" using sw by (simp add: switched_def)
  have act: "\<And>k. k < length doc \<Longrightarrow> hasClass ''tab-content'' (d' ! k) \<Longrightarrow> hasClass ''active'' (d' ! k) \<Longrightarrow> T = Some k"
  proof -
    fix k assume k: "k < length doc" and tc: "hasClass ''tab-content'' (d' ! k)" and a: "hasClass ''active'' (d' ! k)"
    have d: "differOnlyInActive (doc ! k) (d' ! k)" using sw k by (simp add: switched_def)
    have tc0: "hasClass ''tab-content'' (doc ! k)"
      using differOnlyInActive_fields(6) [OF d, of "''tab-content''"] tc by simp
    have "B = Some k \<or> T = Some k \<or>
          (hasClass ''active'' (doc ! k) \<and> \<not> hasClass ''tab-button'' (doc ! k) \<and> \<not> hasClass ''tab-content'' (doc ! k))"
      using sw k a by (simp add: switched_def)
    moreover have "B \<noteq> Some k"
      using B [of k] k tc0 apart by (auto simp: buttonsApartFromContents_def)
    ultimately show "T = Some k" using tc0 by blast
  qed
  from act [of i] act [of j] i j h len show "i = j" by simp
qed

subsection \<open>What each handler leaves behind\<close>

lemma cleared_fields [simp]:
  "idAttr (cleared doc i) = idAttr (doc ! i)" "dataTab (cleared doc i) = dataTab (doc ! i)"
  "c \<noteq> ''active'' \<Longrightarrow> hasClass c (cleared doc i) = hasClass c (doc ! i)"
  by (simp_all add: cleared_def)

text \<open>The document after the two removal loops, in either order and with the lists read
  before or in between.\<close>

lemma tabs_cleared:
  "length (forEach (querySelectorAll ''tab-content'' (forEach (querySelectorAll ''tab-button'' doc) (classList_remove ''active'') doc))
         (classList_remove ''active'') (forEach (querySelectorAll ''tab-button'' doc) (classList_remove ''active'') doc)) = length doc"
  "i < length doc \<Longrightarrow>
   forEach (querySelectorAll ''tab-content'' (forEach (querySelectorAll ''tab-button'' doc) (classList_remove ''active'') doc))
         (classList_remove ''active'') (forEach (querySelectorAll ''tab-button'' doc) (classList_remove ''active'') doc) ! i
   = cleared doc i"
  by (simp_all add: querySelectorAll_forEach_remove length_forEach clear_buttons_contents_nth)

lemma openTab_cleared:
  "length (forEach (querySelectorAll ''tab-button'' (forEach (querySelectorAll ''tab-content'' doc) (classList_remove ''active'') doc))
         (classList_remove ''active'') (forEach (querySelectorAll ''tab-content'' doc) (classList_remove ''active'') doc)) = length doc"
  "i < length doc \<Longrightarrow>
   forEach (querySelectorAll ''tab-button'' (forEach (querySelectorAll ''tab-content'' doc) (classList_remove ''active'') doc))
         (classList_remove ''active'') (forEach (querySelectorAll ''tab-content'' doc) (classList_remove ''active'') doc) ! i
   = cleared doc i"
  by (simp_all add: querySelectorAll_forEach_remove length_forEach clear_contents_buttons_nth)

text \<open>Any document whose elements are the cleared ones, with active added at some nodes,
  answers the lookups as the original does.\<close>

lemma getElementById_cleared:
  assumes "length d = length doc"
    and "\<And>i. i < length doc \<Longrightarrow> d ! i = cleared doc i \<or> d ! i = classList_add ''active'' (cleared doc i)"
  shows "getElementById s d = getElementById s doc"
proof (rule getElementById_cong [OF assms(1)])
  fix i assume "i < length doc"
  from assms(2) [OF this] show "idAttr (d ! i) = idAttr (doc ! i)" by auto
qed

lemma firstTabButton_cleared:
  assumes "length d = length doc"
    and "\<And>i. i < length doc \<Longrightarrow> d ! i = cleared doc i \<or> d ! i = classList_add ''active'' (cleared doc i)"
  shows "firstTabButton v d = firstTabButton v doc"
proof (rule firstTabButton_cong [OF assms(1)])
  fix i assume i: "i < length doc"
  from assms(2) [OF i] show "hasClass ''tab-button'' (d ! i) = hasClass ''tab-button'' (doc ! i)" by auto
  from assms(2) [OF i] show "dataTab (d ! i) = dataTab (doc ! i)" by auto
qed

text \<open>tabs.js and the first handler of script.js.\<close>

lemma scriptClick_switched:
  assumes b: "b < length doc"
    and tb: "tabButtons = querySelectorAll ''tab-button'' doc"
    and tc: "tabContents = querySelectorAll ''tab-content'' doc"
  shows "switched doc (Some b) (getElementById (jsString (dataTab (doc ! b))) doc)
           (fst (scriptClick tabButtons tabContents b doc))"
    and "snd (scriptClick tabButtons tabContents b doc) =
           (if getElementById (jsString (dataTab (doc ! b))) doc = None then Some TypeError else None)"
proof -
  let ?tid = "jsString (dataTab (doc ! b))"
  let ?d2 = "forEach tabContents (classList_remove ''active'') (forEach tabButtons (classList_remove ''active'') doc)"
  let ?d3 = "?d2[b := classList_add ''active'' (?d2 ! b)]"
  have l2: "length ?d2 = length doc" by (simp add: length_forEach)
  have n2: "\<And>i. i < length doc \<Longrightarrow> ?d2 ! i = cleared doc i"
    unfolding tb tc by (rule clear_buttons_contents_nth)
  have n3: "\<And>i. i < length doc \<Longrightarrow> ?d3 ! i = (if i = b then classList_add ''active'' (cleared doc i) else cleared doc i)"
    using l2 n2 b by (simp add: nth_list_update)
  have g: "getElementById ?tid ?d3 = getElementById ?tid doc"
    by (rule getElementById_cleared) (use l2 n3 in auto)
  have res: "scriptClick tabButtons tabContents b doc =
      (case getElementById ?tid doc of None \<Rightarrow> (?d3, Some TypeError)
       | Some c \<Rightarrow> (?d3[c := classList_add ''active'' (?d3 ! c)], None))"
    unfolding scriptClick_def Let_def g ..
  show "snd (scriptClick tabButtons tabContents b doc) =
           (if getElementById ?tid doc = None then Some TypeError else None)"
    unfolding res by (simp split: option.split)
  show "switched doc (Some b) (getElementById ?tid doc) (fst (scriptClick tabButtons tabContents b doc))"
  proof (cases "getElementById ?tid doc")
    case None
    show ?thesis unfolding res None
      by (rule switchedI) (auto simp add: l2 n2 n3 b nth_list_update)
  next
    case (Some c)
    have c: "c < length doc" using getElementById_Some(1) [OF Some] .
    show ?thesis unfolding res Some
      by (rule switchedI) (auto simp add: l2 n2 n3 b c nth_list_update)
  qed
qed

lemma tabsClick_eq_scriptClick:
  "tabsClick b doc =
   scriptClick (querySelectorAll ''tab-button'' doc) (querySelectorAll ''tab-content'' doc) b doc"
  by (simp add: tabsClick_def scriptClick_def querySelectorAll_forEach_remove)

text \<open>activateTab, for a text the selector can hold as it is.\<close>

lemma activateTab_plain:
  assumes plain: "cssPlain tabId"
    and tb: "tabButtons = querySelectorAll ''tab-button'' doc"
    and tc: "tabContents = querySelectorAll ''tab-content'' doc"
  shows "switched doc (firstTabButton tabId doc) (getElementById tabId doc)
           (fst (activateTab engine tabButtons tabContents tabId doc))"
    and "snd (activateTab engine tabButtons tabContents tabId doc) = None"
proof -
  let ?d2 = "forEach tabContents (classList_remove ''active'') (forEach tabButtons (classList_remove ''active'') doc)"
  let ?B = "firstTabButton tabId doc"
  let ?T = "getElementById tabId doc"
  let ?d3 = "case ?B of None \<Rightarrow> ?d2 | Some b \<Rightarrow> ?d2[b := classList_add ''active'' (?d2 ! b)]"
  have l2: "length ?d2 = length doc" by (simp add: length_forEach)
  have n2: "\<And>i. i < length doc \<Longrightarrow> ?d2 ! i = cleared doc i"
    unfolding tb tc by (rule clear_buttons_contents_nth)
  have q: "querySelector engine (tabButtonSelector tabId) ?d2 = Inr ?B"
    unfolding querySelector_plain [OF plain]
    by (simp add: firstTabButton_cleared [OF l2] n2)
  have l3: "length ?d3 = length doc" using l2 by (simp split: option.split)
  have n3: "\<And>i. i < length doc \<Longrightarrow> ?d3 ! i = (if ?B = Some i then classList_add ''active'' (cleared doc i) else cleared doc i)"
    using l2 n2 by (auto simp: nth_list_update split: option.split dest: firstTabButton_Some(1))
  have g: "getElementById tabId ?d3 = ?T"
    by (rule getElementById_cleared [OF l3]) (use n3 in auto)
  have res: "activateTab engine tabButtons tabContents tabId doc =
      (case ?T of None \<Rightarrow> (?d3, None) | Some c \<Rightarrow> (?d3[c := classList_add ''active'' (?d3 ! c)], None))"
    unfolding activateTab_def Let_def q sum.case g ..
  show "snd (activateTab engine tabButtons tabContents tabId doc) = None"
    unfolding res by (simp split: option.split)
  show "switched doc ?B ?T (fst (activateTab engine tabButtons tabContents tabId doc))"
  proof (cases ?T)
    case None
    show ?thesis unfolding res None
      by (rule switchedI) (auto simp add: l2 n2 l3 n3 nth_list_update)
  next
    case (Some c)
    have c: "c < length doc" using getElementById_Some(1) [OF Some] .
    show ?thesis unfolding res Some
      by (rule switchedI) (auto simp add: l2 n2 l3 n3 c nth_list_update)
  qed
qed

text \<open>openTab of index.html.\<close>

lemma openTab_switched:
  assumes b: "b < length doc"
  shows "getElementById tabId doc = Some c \<Longrightarrow>
           switched doc (Some b) (Some c) (fst (openTab tabId (Some b) doc)) \<and>
           snd (openTab tabId (Some b) doc) = None"
    and "getElementById tabId doc = None \<Longrightarrow>
           switched doc None None (fst (openTab tabId (Some b) doc)) \<and>
           snd (openTab tabId (Some b) doc) = Some TypeError"
proof -
  let ?d1 = "forEach (querySelectorAll ''tab-content'' doc) (classList_remove ''active'') doc"
  let ?d2 = "forEach (querySelectorAll ''tab-button'' ?d1) (classList_remove ''active'') ?d1"
  have l2: "length ?d2 = length doc" by (rule openTab_cleared(1))
  have n2: "\<And>i. i < length doc \<Longrightarrow> ?d2 ! i = cleared doc i" by (rule openTab_cleared(2))
  have g: "getElementById tabId ?d2 = getElementById tabId doc"
    by (rule getElementById_cleared [OF l2]) (use n2 in auto)
  have res: "openTab tabId (Some b) doc =
     (case getElementById tabId doc of None \<Rightarrow> (?d2, Some TypeError)
      | Some c \<Rightarrow> ((?d2[c := classList_add ''active'' (?d2 ! c)])
                      [b := classList_add ''active'' (?d2[c := classList_add ''active'' (?d2 ! c)] ! b)], None))"
    unfolding openTab_def Let_def g by (simp split: option.split)
  show "switched doc None None (fst (openTab tabId (Some b) doc)) \<and>
        snd (openTab tabId (Some b) doc) = Some TypeError" if "getElementById tabId doc = None"
    unfolding res that
    by (simp, rule switchedI) (auto simp add: l2 n2)
  show "switched doc (Some b) (Some c) (fst (openTab tabId (Some b) doc)) \<and>
        snd (openTab tabId (Some b) doc) = None" if T: "getElementById tabId doc = Some c"
  proof -
    have c: "c < length doc" using getElementById_Some(1) [OF T] .
    show ?thesis unfolding res T
      by (simp, rule switchedI) (auto simp add: l2 n2 b c nth_list_update)
  qed
qed

text \<open>
  The node lists that a load handler of script.js reads stay the lists of the tab buttons
  and tab contents: the styling pass and the handlers change no class but \<^verbatim>\<open>active\<close>.
\<close>

lemma querySelectorAll_switched:
  assumes "switched doc B T d'" and "c \<noteq> ''active''"
  shows "querySelectorAll c d' = querySelectorAll c doc"
proof (rule querySelectorAll_cong)
  show "length d' = length doc" using assms(1) by (simp add: switched_def)
  fix i assume "i < length doc"
  then have "differOnlyInActive (doc ! i) (d' ! i)" using assms(1) by (simp add: switched_def)
  then show "hasClass c (d' ! i) = hasClass c (doc ! i)"
    using assms(2) by (rule differOnlyInActive_fields(6))
qed

lemma classList_styleCell [simp]: "classList (styleCell e) = classList e"
  by (simp add: styleCell_def)

lemma querySelectorAll_styleFailedCells:
  "querySelectorAll c (styleFailedCells doc) = querySelectorAll c doc"
proof (rule querySelectorAll_cong)
  show "length (styleFailedCells doc) = length doc"
    by (simp add: styleFailedCells_def length_forEach)
  fix i assume "i < length doc"
  then show "hasClass c (styleFailedCells doc ! i) = hasClass c (doc ! i)"
    by (simp add: styleFailedCells_nth hasClass_def)
qed

text \<open>Both load handlers of script.js run the styling pass; once is as good as twice.\<close>

lemma styleCell_idem [simp]: "styleCell (styleCell e) = styleCell e"
  by (simp add: styleCell_def)

lemma styleFailedCells_idem: "styleFailedCells (styleFailedCells doc) = styleFailedCells doc"
proof (rule nth_equalityI)
  show "length (styleFailedCells (styleFailedCells doc)) = length (styleFailedCells doc)"
    by (simp add: styleFailedCells_def length_forEach)
  fix i assume "i < length (styleFailedCells (styleFailedCells doc))"
  then have i: "i < length doc" by (simp add: styleFailedCells_def length_forEach)
  then have i': "i < length (styleFailedCells doc)" by (simp add: styleFailedCells_def length_forEach)
  show "styleFailedCells (styleFailedCells doc) ! i = styleFailedCells doc ! i"
    by (simp add: styleFailedCells_nth [OF i'] styleFailedCells_nth [OF i])
qed

subsection \<open>activateTab and the text it is given\<close>

lemma firstTabButton_None:
  "firstTabButton v doc = None \<longleftrightarrow>
   (\<forall>i < length doc. \<not> (hasClass ''tab-button'' (doc ! i) \<and> dataTab (doc ! i) = Some v))"
  by (auto simp: firstTabButton_def find_None_iff)

lemma getElementById_None:
  "getElementById s doc = None \<longleftrightarrow> s = [] \<or> (\<forall>i < length doc. idAttr (doc ! i) \<noteq> Some s)"
  by (auto simp: getElementById_def find_None_iff)

lemma switched_none_no_active:
  assumes "switched doc None None d'" and "i < length doc"
    and "hasClass ''tab-button'' (d' ! i) \<or> hasClass ''tab-content'' (d' ! i)"
  shows "\<not> hasClass ''active'' (d' ! i)"
proof -
  have d: "differOnlyInActive (doc ! i) (d' ! i)" using assms(1,2) by (simp add: switched_def)
  have "hasClass ''tab-button'' (doc ! i) \<or> hasClass ''tab-content'' (doc ! i)"
    using assms(3) differOnlyInActive_fields(6) [OF d, of "''tab-button''"]
      differOnlyInActive_fields(6) [OF d, of "''tab-content''"] by simp
  then show ?thesis using assms(1,2) by (simp add: switched_def)
qed

lemma cssPlain_stats: "cssPlain ''stats''"
  by (simp add: cssPlain_def cssSpecial_def)

text \<open>
  C9, as the code has it. For a \<open>tabId\<close> without a double quote, backslash, line feed,
  carriage return, form feed or NUL, \<open>activateTab\<close> completes without throwing, keeps every
  element, and, when no tab button has that \<^verbatim>\<open>data-tab\<close> and no element that id, leaves no tab
  button and no tab content with the class \<^verbatim>\<open>active\<close>. \<open>tabButtons\<close> and \<open>tabContents\<close> are
  the node lists the load handler read from this document.
\<close>

theorem activateTab_plain_never_throws:
  assumes "cssPlain tabId"
    and "tabButtons = querySelectorAll ''tab-button'' doc"
    and "tabContents = querySelectorAll ''tab-content'' doc"
    and "doc' = fst (activateTab engine tabButtons tabContents tabId doc)"
  shows "snd (activateTab engine tabButtons tabContents tabId doc) = None \<and>
         length doc' = length doc \<and>
         ((\<forall>i < length doc. \<not> (hasClass ''tab-button'' (doc ! i) \<and> dataTab (doc ! i) = Some tabId)) \<and>
          (\<forall>i < length doc. idAttr (doc ! i) \<noteq> Some tabId) \<longrightarrow>
          (\<forall>i < length doc. hasClass ''tab-button'' (doc' ! i) \<or> hasClass ''tab-content'' (doc' ! i)
               \<longrightarrow> \<not> hasClass ''active'' (doc' ! i)))"
proof -
  note sw = activateTab_plain(1) [OF assms(1-3), of engine, folded assms(4)]
  have "snd (activateTab engine tabButtons tabContents tabId doc) = None"
    by (rule activateTab_plain(2) [OF assms(1-3)])
  moreover have "length doc' = length doc" using sw by (simp add: switched_def)
  moreover have "\<not> hasClass ''active'' (doc' ! i)"
    if "\<forall>i < length doc. \<not> (hasClass ''tab-button'' (doc ! i) \<and> dataTab (doc ! i) = Some tabId)"
      and "\<forall>i < length doc. idAttr (doc ! i) \<noteq> Some tabId"
      and "i < length doc"
      and "hasClass ''tab-button'' (doc' ! i) \<or> hasClass ''tab-content'' (doc' ! i)" for i
  proof -
    have "firstTabButton tabId doc = None" using that(1) by (simp only: firstTabButton_None)
    moreover have "getElementById tabId doc = None" using that(2) by (simp add: getElementById_None)
    ultimately have "switched doc None None doc'" using sw by simp
    then show ?thesis using that(3,4) by (rule switched_none_no_active)
  qed
  ultimately show ?thesis by blast
qed

theorem activateTab_plain_never_throws_witness:
  "cssPlain ''nowhere'' \<and>
   snd (activateTab nullEngine [0, 1] [2, 3] ''nowhere'' sampleTabs) = None \<and>
   map (hasClass ''active'') (fst (activateTab nullEngine [0, 1] [2, 3] ''nowhere'' sampleTabs))
     = [False, False, False, False, True]"
proof -
  have p: "cssPlain ''nowhere''" by (simp add: cssPlain_def cssSpecial_def)
  have tb: "[0, 1] = querySelectorAll ''tab-button'' sampleTabs" by code_simp
  have tc: "[2, 3] = querySelectorAll ''tab-content'' sampleTabs" by code_simp
  have r: "map (hasClass ''active'') (fst (activateTab nullEngine [0, 1] [2, 3] ''nowhere'' sampleTabs))
     = [False, False, False, False, True]" by code_simp
  from activateTab_plain_never_throws [OF p tb tc refl, of nullEngine] p r
  show ?thesis by blast
qed

text \<open>
  C9 as stated ("for every tabId string") fails on a \<open>tabId\<close> that is one double quote: the
  selector reads \<^verbatim>\<open>.tab-button[data-tab="""]\<close>, \<^verbatim>\<open>querySelector\<close> throws a SyntaxError, and
  the function ends there.
\<close>

theorem activateTab_quote_throws:
  "snd (activateTab nullEngine (querySelectorAll ''tab-button'' sampleTabs)
          (querySelectorAll ''tab-content'' sampleTabs) [CHR 0x22] sampleTabs) = Some SyntaxError"
  by (simp add: activateTab_def Let_def querySelector_quote)

subsection \<open>The stats flag of session storage\<close>

lemma checkActivateStats_flagged:
  assumes "sessionStorage pg ''activateStatsTab'' = Some ''true''"
    and "tabButtons = querySelectorAll ''tab-button'' (pageDocument pg)"
    and "tabContents = querySelectorAll ''tab-content'' (pageDocument pg)"
  shows "checkActivateStats engine tabButtons tabContents pg =
           (pg\<lparr>pageDocument := fst (activateTab engine tabButtons tabContents ''stats'' (pageDocument pg)),
               sessionStorage := (sessionStorage pg)(''activateStatsTab'' := None)\<rparr>, None)"
proof -
  have "snd (activateTab engine tabButtons tabContents ''stats'' (pageDocument pg)) = None"
    by (rule activateTab_plain(2) [OF cssPlain_stats assms(2,3)])
  then obtain d where "activateTab engine tabButtons tabContents ''stats'' (pageDocument pg) = (d, None)"
    by (cases "activateTab engine tabButtons tabContents ''stats'' (pageDocument pg)") auto
  then show ?thesis
    using assms(1) by (simp add: checkActivateStats_def)
qed

lemma checkActivateStats_unflagged:
  assumes "sessionStorage pg ''activateStatsTab'' \<noteq> Some ''true''"
  shows "checkActivateStats engine tabButtons tabContents pg = (pg, None)"
  using assms by (simp add: checkActivateStats_def)






subsection \<open>Clicks on tab buttons\<close>

lemma listeners_activateLoaded:
  assumes "tabButtons = querySelectorAll ''tab-button'' (pageDocument pg)"
    and "tabContents = querySelectorAll ''tab-content'' (pageDocument pg)"
  shows "listeners (fst (activateLoaded engine pg)) =
           listeners pg @ map (\<lambda>b. (b, ActivateListener tabButtons tabContents)) tabButtons"
proof (cases "sessionStorage pg ''activateStatsTab'' = Some ''true''")
  case True
  show ?thesis
    unfolding activateLoaded_def Let_def assms [symmetric]
      checkActivateStats_flagged [OF True assms, of engine]
    by (simp add: addClickListeners_def)
next
  case False
  show ?thesis
    unfolding activateLoaded_def Let_def assms [symmetric]
      checkActivateStats_unflagged [OF False, of engine tabButtons tabContents]
    by (simp add: addClickListeners_def)
qed

lemma mem_querySelectorAll:
  "b < length doc \<Longrightarrow> hasClass c (doc ! b) \<Longrightarrow> b \<in> set (querySelectorAll c doc)"
  by (simp add: set_querySelectorAll hasClass_def)

lemma listener_attached:
  assumes "b < length (pageDocument pg)" and "hasClass ''tab-button'' (pageDocument pg ! b)"
    and "tabButtons = querySelectorAll ''tab-button'' (pageDocument pg)"
    and "tabContents = querySelectorAll ''tab-content'' (pageDocument pg)"
  shows "(b, TabsListener) \<in> set (listeners (tabsLoaded pg))"
    and "(b, ScriptListener tabButtons tabContents) \<in> set (listeners (scriptLoaded pg))"
    and "(b, ActivateListener tabButtons tabContents) \<in> set (listeners (fst (activateLoaded engine pg)))"
proof -
  have m: "b \<in> set tabButtons" unfolding assms(3) by (rule mem_querySelectorAll [OF assms(1,2)])
  show "(b, TabsListener) \<in> set (listeners (tabsLoaded pg))"
    using m by (simp add: tabsLoaded_def addClickListeners_def assms(3) image_iff)
  show "(b, ScriptListener tabButtons tabContents) \<in> set (listeners (scriptLoaded pg))"
    using m by (simp add: scriptLoaded_def Let_def addClickListeners_def assms(3,4) image_iff)
  show "(b, ActivateListener tabButtons tabContents) \<in> set (listeners (fst (activateLoaded engine pg)))"
    using m by (simp add: listeners_activateLoaded [OF assms(3,4)] image_iff)
qed

text \<open>
  C8, as the code has it. Let \<open>b\<close> be a tab button of the document \<open>doc\<close>, \<open>tabId\<close> its
  \<^verbatim>\<open>data-tab\<close> (\<^verbatim>\<open>"null"\<close> when it has none) and \<open>content\<close> the element with that id, if any;
  \<open>tabButtons\<close> and \<open>tabContents\<close> are the node lists a load handler of script.js reads.
  \<^item> The load handlers of tabs.js and of script.js attach their click listener to \<open>b\<close>
    (index.html attaches none: its buttons call \<^verbatim>\<open>openTab\<close> from their \<^verbatim>\<open>onclick\<close> attribute).
  \<^item> The handler of tabs.js and the first handler of script.js switch the tabs to \<open>b\<close> and
    \<open>content\<close>; when there is no such element they switch to \<open>b\<close> alone and throw a
    TypeError.
  \<^item> The handler around \<open>activateTab\<close>, for a \<open>tabId\<close> without double quote, backslash,
    line feed, carriage return, form feed and NUL (\<open>cssPlain\<close>), switches the tabs to the
    first tab button whose \<^verbatim>\<open>data-tab\<close> is \<open>tabId\<close> and to \<open>content\<close>, and does not throw;
    that button is \<open>b\<close> when \<open>b\<close> has the attribute and no earlier tab button has the same
    value. For any other \<open>tabId\<close> nothing is stated of this handler.
  \<^item> \<^verbatim>\<open>openTab(t)\<close>, called from the \<^verbatim>\<open>onclick\<close> of \<open>b\<close>, switches the tabs to \<open>b\<close> and the
    element with id \<open>t\<close>; when there is none it throws a TypeError with no tab button and
    no tab content active.
  \<^item> When no element is both a tab button and a tab content, at most one tab content is
    active after each handler; for the handler around \<open>activateTab\<close> again only for a
    \<open>tabId\<close> that is \<open>cssPlain\<close>.
  "Switched" is \<open>switched\<close>: \<^verbatim>\<open>active\<close> is removed from all tab buttons and tab contents and
  added to exactly the two nodes, and nothing else changes.
\<close>

theorem click_switches_tabs:
  assumes b: "b < length doc" "hasClass ''tab-button'' (doc ! b)"
    and doc: "pageDocument pg = doc"
    and tb: "tabButtons = querySelectorAll ''tab-button'' doc"
    and tc: "tabContents = querySelectorAll ''tab-content'' doc"
    and tid: "tabId = jsString (dataTab (doc ! b))"
    and T: "content = getElementById tabId doc"
  shows
    "((b, TabsListener) \<in> set (listeners (tabsLoaded pg)) \<and>
      (b, ScriptListener tabButtons tabContents) \<in> set (listeners (scriptLoaded pg)) \<and>
      (b, ActivateListener tabButtons tabContents)
         \<in> set (listeners (fst (activateLoaded engine pg)))) \<and>
     (switched doc (Some b) content (fst (runListener engine TabsListener b doc)) \<and>
      snd (runListener engine TabsListener b doc)
        = (if content = None then Some TypeError else None)) \<and>
     (switched doc (Some b) content
        (fst (runListener engine (ScriptListener tabButtons tabContents) b doc)) \<and>
      snd (runListener engine (ScriptListener tabButtons tabContents) b doc)
        = (if content = None then Some TypeError else None)) \<and>
     (cssPlain tabId \<longrightarrow>
        switched doc (firstTabButton tabId doc) content
          (fst (runListener engine (ActivateListener tabButtons tabContents) b doc)) \<and>
        snd (runListener engine (ActivateListener tabButtons tabContents) b doc) = None \<and>
        (dataTab (doc ! b) \<noteq> None \<and>
         (\<forall>j < b. \<not> (hasClass ''tab-button'' (doc ! j) \<and> dataTab (doc ! j) = dataTab (doc ! b)))
         \<longrightarrow> firstTabButton tabId doc = Some b)) \<and>
     (\<forall>t. onclickTab (doc ! b) = Some t \<longrightarrow>
        (\<forall>c. getElementById t doc = Some c \<longrightarrow>
           switched doc (Some b) (Some c) (fst (inlineClick b doc)) \<and>
           snd (inlineClick b doc) = None) \<and>
        (getElementById t doc = None \<longrightarrow>
           switched doc None None (fst (inlineClick b doc)) \<and>
           snd (inlineClick b doc) = Some TypeError)) \<and>
     (buttonsApartFromContents doc \<longrightarrow>
        atMostOneActiveContent (fst (runListener engine TabsListener b doc)) \<and>
        atMostOneActiveContent
          (fst (runListener engine (ScriptListener tabButtons tabContents) b doc)) \<and>
        (cssPlain tabId \<longrightarrow>
           atMostOneActiveContent
             (fst (runListener engine (ActivateListener tabButtons tabContents) b doc))) \<and>
        (onclickTab (doc ! b) \<noteq> None \<longrightarrow> atMostOneActiveContent (fst (inlineClick b doc))))"
proof -
  have attach: "(b, TabsListener) \<in> set (listeners (tabsLoaded pg)) \<and>
      (b, ScriptListener tabButtons tabContents) \<in> set (listeners (scriptLoaded pg)) \<and>
      (b, ActivateListener tabButtons tabContents) \<in> set (listeners (fst (activateLoaded engine pg)))"
    using listener_attached [where pg = pg, unfolded doc, OF b tb tc] by blast
  have script: "switched doc (Some b) content (fst (scriptClick tabButtons tabContents b doc))"
      "snd (scriptClick tabButtons tabContents b doc) = (if content = None then Some TypeError else None)"
    unfolding T tid by (rule scriptClick_switched [OF b(1) tb tc])+
  have tabs: "tabsClick b doc = scriptClick tabButtons tabContents b doc"
    unfolding tb tc by (rule tabsClick_eq_scriptClick)
  have act: "switched doc (firstTabButton tabId doc) content
          (fst (activateClick engine tabButtons tabContents b doc)) \<and>
        snd (activateClick engine tabButtons tabContents b doc) = None" if "cssPlain tabId"
    unfolding activateClick_def tid [symmetric] T
    using activateTab_plain [OF that tb tc, of engine] by blast
  have first: "firstTabButton tabId doc = Some b"
    if "dataTab (doc ! b) \<noteq> None"
      and "\<forall>j < b. \<not> (hasClass ''tab-button'' (doc ! j) \<and> dataTab (doc ! j) = dataTab (doc ! b))"
  proof -
    from that(1) have "dataTab (doc ! b) = Some tabId" by (auto simp: tid jsString_def)
    then show ?thesis using that(2) b by (intro firstTabButton_self) auto
  qed
  have inl: "inlineClick b doc = openTab t (Some b) doc" if "onclickTab (doc ! b) = Some t" for t
    using that by (simp add: inlineClick_def)
  have open1: "switched doc (Some b) (Some c) (fst (inlineClick b doc)) \<and> snd (inlineClick b doc) = None"
    if "onclickTab (doc ! b) = Some t" "getElementById t doc = Some c" for t c
    unfolding inl [OF that(1)] by (rule openTab_switched(1) [OF b(1) that(2)])
  have open2: "switched doc None None (fst (inlineClick b doc)) \<and> snd (inlineClick b doc) = Some TypeError"
    if "onclickTab (doc ! b) = Some t" "getElementById t doc = None" for t
    unfolding inl [OF that(1)] by (rule openTab_switched(2) [OF b(1) that(2)])
  have one: "atMostOneActiveContent d'"
    if "buttonsApartFromContents doc" "switched doc (Some b) T' d'" for T' d'
    using that(2,1) by (rule switched_atMostOne) (use b in auto)
  have one_none: "atMostOneActiveContent d'"
    if "buttonsApartFromContents doc" "switched doc None None d'" for d'
    using that(2,1) by (rule switched_atMostOne) auto
  have one_first: "atMostOneActiveContent d'"
    if "buttonsApartFromContents doc" "switched doc (firstTabButton tabId doc) T' d'" for T' d'
    using that(2,1) by (rule switched_atMostOne) (auto dest: firstTabButton_Some(2))
  have one_open: "atMostOneActiveContent (fst (inlineClick b doc))"
    if ap: "buttonsApartFromContents doc" and "onclickTab (doc ! b) \<noteq> None"
  proof -
    from that(2) obtain t where t: "onclickTab (doc ! b) = Some t" by auto
    show ?thesis
    proof (cases "getElementById t doc")
      case None
      then show ?thesis using open2 [OF t] one_none [OF ap] by blast
    next
      case (Some c)
      then show ?thesis using open1 [OF t] one [OF ap] by blast
    qed
  qed
  show ?thesis
    unfolding runListener.simps tabs
    using attach script act first open1 open2 one one_first one_open
    by (intro conjI impI allI) blast+
qed

lemma sampleTabs_lists:
  "querySelectorAll ''tab-button'' sampleTabs = [0, 1]"
  "querySelectorAll ''tab-content'' sampleTabs = [2, 3]"
  by code_simp+

theorem click_switches_tabs_witness:
  "hasClass ''tab-button'' (sampleTabs ! 1) \<and> cssPlain ''stats'' \<and>
   buttonsApartFromContents sampleTabs \<and>
   (1, TabsListener) \<in> set (listeners (tabsLoaded plainPage)) \<and>
   (1, ScriptListener [0, 1] [2, 3]) \<in> set (listeners (scriptLoaded plainPage)) \<and>
   (1, ActivateListener [0, 1] [2, 3]) \<in> set (listeners (fst (activateLoaded nullEngine plainPage))) \<and>
   switched sampleTabs (Some 1) (Some 3) (fst (runListener nullEngine TabsListener 1 sampleTabs)) \<and>
   snd (runListener nullEngine TabsListener 1 sampleTabs) = None \<and>
   switched sampleTabs (Some 1) (Some 3)
     (fst (runListener nullEngine (ScriptListener [0, 1] [2, 3]) 1 sampleTabs)) \<and>
   switched sampleTabs (Some 1) (Some 3)
     (fst (runListener nullEngine (ActivateListener [0, 1] [2, 3]) 1 sampleTabs)) \<and>
   snd (runListener nullEngine (ActivateListener [0, 1] [2, 3]) 1 sampleTabs) = None \<and>
   switched sampleTabs (Some 1) (Some 3) (fst (inlineClick 1 sampleTabs)) \<and>
   atMostOneActiveContent (fst (runListener nullEngine TabsListener 1 sampleTabs)) \<and>
   atMostOneActiveContent (fst (runListener nullEngine (ActivateListener [0, 1] [2, 3]) 1 sampleTabs)) \<and>
   atMostOneActiveContent (fst (inlineClick 1 sampleTabs)) \<and>
   map (hasClass ''active'') (fst (runListener nullEngine TabsListener 1 sampleTabs))
     = [False, True, False, True, True] \<and>
   hasClass ''tab-button'' (ghostTabs ! 0) \<and>
   getElementById ''ghost'' ghostTabs = None \<and>
   snd (runListener nullEngine TabsListener 0 ghostTabs) = Some TypeError \<and>
   switched ghostTabs (Some 0) None (fst (runListener nullEngine TabsListener 0 ghostTabs)) \<and>
   snd (inlineClick 0 ghostTabs) = Some TypeError \<and>
   switched ghostTabs None None (fst (inlineClick 0 ghostTabs))"
proof -
  have gb: "0 < length ghostTabs" "hasClass ''tab-button'' (ghostTabs ! 0)" by code_simp+
  have gpd: "pageDocument (plainPage\<lparr>pageDocument := ghostTabs\<rparr>) = ghostTabs" by simp
  have gtid: "''ghost'' = jsString (dataTab (ghostTabs ! 0))" by code_simp
  have gT: "None = getElementById ''ghost'' ghostTabs" by code_simp
  have goc: "onclickTab (ghostTabs ! 0) = Some ''ghost''" by code_simp
  note g = click_switches_tabs [OF gb gpd refl refl gtid gT, of nullEngine]
  have ghost: "snd (runListener nullEngine TabsListener 0 ghostTabs) = Some TypeError \<and>
   switched ghostTabs (Some 0) None (fst (runListener nullEngine TabsListener 0 ghostTabs)) \<and>
   snd (inlineClick 0 ghostTabs) = Some TypeError \<and>
   switched ghostTabs None None (fst (inlineClick 0 ghostTabs))"
    using g goc gT [symmetric] by simp
  have b: "1 < length sampleTabs" "hasClass ''tab-button'' (sampleTabs ! 1)" by code_simp+
  have pd: "pageDocument plainPage = sampleTabs" by (simp add: plainPage_def)
  have tid: "''stats'' = jsString (dataTab (sampleTabs ! 1))" by code_simp
  have T: "Some 3 = getElementById ''stats'' sampleTabs" by code_simp
  have first: "firstTabButton ''stats'' sampleTabs = Some 1" by code_simp
  have oc: "onclickTab (sampleTabs ! 1) = Some ''stats''" by code_simp
  have apart: "buttonsApartFromContents sampleTabs"
    by (simp add: buttonsApartFromContents_def sampleTabs_def tabButton_def node_def hasClass_def
        less_Suc_eq numeral_eq_Suc all_conj_distrib)
  have ev: "map (hasClass ''active'') (fst (runListener nullEngine TabsListener 1 sampleTabs))
     = [False, True, False, True, True]" by code_simp
  note t = click_switches_tabs [OF b pd sampleTabs_lists(1) [symmetric] sampleTabs_lists(2) [symmetric] tid T,
      of nullEngine]
  from t b(2) cssPlain_stats apart first oc T [symmetric] ev
  have "hasClass ''tab-button'' (sampleTabs ! 1) \<and> cssPlain ''stats'' \<and>
   buttonsApartFromContents sampleTabs \<and>
   (1, TabsListener) \<in> set (listeners (tabsLoaded plainPage)) \<and>
   (1, ScriptListener [0, 1] [2, 3]) \<in> set (listeners (scriptLoaded plainPage)) \<and>
   (1, ActivateListener [0, 1] [2, 3]) \<in> set (listeners (fst (activateLoaded nullEngine plainPage))) \<and>
   switched sampleTabs (Some 1) (Some 3) (fst (runListener nullEngine TabsListener 1 sampleTabs)) \<and>
   snd (runListener nullEngine TabsListener 1 sampleTabs) = None \<and>
   switched sampleTabs (Some 1) (Some 3)
     (fst (runListener nullEngine (ScriptListener [0, 1] [2, 3]) 1 sampleTabs)) \<and>
   switched sampleTabs (Some 1) (Some 3)
     (fst (runListener nullEngine (ActivateListener [0, 1] [2, 3]) 1 sampleTabs)) \<and>
   snd (runListener nullEngine (ActivateListener [0, 1] [2, 3]) 1 sampleTabs) = None \<and>
   switched sampleTabs (Some 1) (Some 3) (fst (inlineClick 1 sampleTabs)) \<and>
   atMostOneActiveContent (fst (runListener nullEngine TabsListener 1 sampleTabs)) \<and>
   atMostOneActiveContent (fst (runListener nullEngine (ActivateListener [0, 1] [2, 3]) 1 sampleTabs)) \<and>
   atMostOneActiveContent (fst (inlineClick 1 sampleTabs)) \<and>
   map (hasClass ''active'') (fst (runListener nullEngine TabsListener 1 sampleTabs))
     = [False, True, False, True, True]"
    by simp
  with ghost gb(2) gT [symmetric] show ?thesis by blast
qed

text \<open>
  C8 as stated fails in three places. On a page with two buttons for the one tab, a click on
  the second runs \<open>activateTab\<close>, which marks the first button with that \<^verbatim>\<open>data-tab\<close>: the
  clicked button is left without \<^verbatim>\<open>active\<close>. Where a tab button is itself a tab content,
  the handler of tabs.js leaves two tab contents active: the button and the element it
  names. And where the \<^verbatim>\<open>data-tab\<close> is a double quote, the handler around \<open>activateTab\<close>
  throws a SyntaxError after the removals and marks neither the clicked button nor the
  element with that id.
\<close>

theorem click_leaves_clicked_button_inactive:
  "hasClass ''tab-button'' (twinTabs ! 1) \<and>
   \<not> hasClass ''active''
       (fst (runListener nullEngine
               (ActivateListener (querySelectorAll ''tab-button'' twinTabs)
                  (querySelectorAll ''tab-content'' twinTabs)) 1 twinTabs) ! 1) \<and>
   hasClass ''active''
       (fst (runListener nullEngine
               (ActivateListener (querySelectorAll ''tab-button'' twinTabs)
                  (querySelectorAll ''tab-content'' twinTabs)) 1 twinTabs) ! 0) \<and>
   hasClass ''tab-button'' (overlapTabs ! 0) \<and>
   \<not> atMostOneActiveContent (fst (runListener nullEngine TabsListener 0 overlapTabs)) \<and>
   hasClass ''tab-button'' (quoteTabs ! 0) \<and>
   getElementById (jsString (dataTab (quoteTabs ! 0))) quoteTabs = Some 1 \<and>
   snd (runListener nullEngine
          (ActivateListener (querySelectorAll ''tab-button'' quoteTabs)
             (querySelectorAll ''tab-content'' quoteTabs)) 0 quoteTabs) = Some SyntaxError \<and>
   \<not> hasClass ''active''
       (fst (runListener nullEngine
               (ActivateListener (querySelectorAll ''tab-button'' quoteTabs)
                  (querySelectorAll ''tab-content'' quoteTabs)) 0 quoteTabs) ! 0) \<and>
   \<not> hasClass ''active''
       (fst (runListener nullEngine
               (ActivateListener (querySelectorAll ''tab-button'' quoteTabs)
                  (querySelectorAll ''tab-content'' quoteTabs)) 0 quoteTabs) ! 1)"
proof -
  have 1: "hasClass ''tab-button'' (twinTabs ! 1)" by code_simp
  have 2: "\<not> hasClass ''active''
       (fst (runListener nullEngine
               (ActivateListener (querySelectorAll ''tab-button'' twinTabs)
                  (querySelectorAll ''tab-content'' twinTabs)) 1 twinTabs) ! 1)" by code_simp
  have 3: "hasClass ''active''
       (fst (runListener nullEngine
               (ActivateListener (querySelectorAll ''tab-button'' twinTabs)
                  (querySelectorAll ''tab-content'' twinTabs)) 1 twinTabs) ! 0)" by code_simp
  have 4: "hasClass ''tab-button'' (overlapTabs ! 0)" by code_simp
  let ?d = "fst (runListener nullEngine TabsListener 0 overlapTabs)"
  have l: "0 < length ?d" "1 < length ?d" by code_simp+
  have a: "hasClass ''tab-content'' (?d ! 0) \<and> hasClass ''active'' (?d ! 0) \<and>
           hasClass ''tab-content'' (?d ! 1) \<and> hasClass ''active'' (?d ! 1)" by code_simp
  have 5: "\<not> atMostOneActiveContent ?d"
  proof
    assume "atMostOneActiveContent ?d"
    then have "(0::nat) = 1" unfolding atMostOneActiveContent_def using l a by blast
    then show False by simp
  qed
  have 6: "hasClass ''tab-button'' (quoteTabs ! 0)"
    "getElementById (jsString (dataTab (quoteTabs ! 0))) quoteTabs = Some 1" by code_simp+
  have 7: "snd (runListener nullEngine
          (ActivateListener (querySelectorAll ''tab-button'' quoteTabs)
             (querySelectorAll ''tab-content'' quoteTabs)) 0 quoteTabs) = Some SyntaxError"
    by code_simp
  have 8: "\<not> hasClass ''active''
       (fst (runListener nullEngine
               (ActivateListener (querySelectorAll ''tab-button'' quoteTabs)
                  (querySelectorAll ''tab-content'' quoteTabs)) 0 quoteTabs) ! 0)"
    "\<not> hasClass ''active''
       (fst (runListener nullEngine
               (ActivateListener (querySelectorAll ''tab-button'' quoteTabs)
                  (querySelectorAll ''tab-content'' quoteTabs)) 0 quoteTabs) ! 1)"
    by code_simp+
  from 1 2 3 4 5 6 7 8 show ?thesis by blast
qed

section \<open>Properties of the weekly winner computation\<close>

lemma set_computeWeeklyWinners:
  "set (computeWeeklyWinners records lg w) =
   standingOf records lg w
       (minTotal (map (playerScores records lg w) (playersConsidered records lg w)))
     ` set (playersConsidered records lg w)"
  by (simp add: computeWeeklyWinners_def Let_def)

lemma standing_fields:
  assumes "s \<in> set (computeWeeklyWinners records lg w)"
  shows "standingPlayer s \<in> set (playersConsidered records lg w)"
    and "total s = bestFive (playerScores records lg w (standingPlayer s))"
    and "gameCount s = length (playerScores records lg w (standingPlayer s))"
    and "standingLeague s = lg" and "window s = w"
    and "isWinner s = (eligible (playerScores records lg w (standingPlayer s)) \<and>
           minTotal (map (playerScores records lg w) (playersConsidered records lg w))
             = Some (total s))"
  using assms by (auto simp: set_computeWeeklyWinners standingOf_def Let_def)

text \<open>The scores of a player's group, written out over the records.\<close>

lemma playerScores_filter:
  "map score (filter (\<lambda>r. player r = p \<and> league r = lg \<and> windowStart w \<le> date r \<and>
                          date r \<le> windowEnd w) records)
   = playerScores records lg w p"
  by (simp add: playerScores_def inWindow_def conj_commute conj_left_commute cong: conj_cong)

lemma length_playerScores_filter:
  "length (filter (\<lambda>r. player r = p \<and> league r = lg \<and> windowStart w \<le> date r \<and>
                       date r \<le> windowEnd w) records)
   = length (playerScores records lg w p)"
  by (simp add: playerScores_def inWindow_def conj_commute conj_left_commute cong: conj_cong)

text \<open>The first \<open>k\<close> of the sorted scores are \<open>k\<close> of the scores, and none of the others is
  smaller than any of them.\<close>

lemma take_sort_smallest:
  fixes xs :: "int list"
  assumes "k \<le> length xs"
  shows "mset (take k (sort xs)) \<subseteq># mset xs"
    and "size (mset (take k (sort xs))) = k"
    and "\<forall>x\<in>#mset (take k (sort xs)). \<forall>y\<in>#(mset xs - mset (take k (sort xs))). x \<le> y"
proof -
  let ?ys = "sort xs"
  have split: "mset xs = mset (take k ?ys) + mset (drop k ?ys)"
    by (metis append_take_drop_id mset_append mset_sort)
  show "mset (take k ?ys) \<subseteq># mset xs" using split by simp
  show "size (mset (take k ?ys)) = k" using assms by simp
  have "sorted (take k ?ys @ drop k ?ys)" by simp
  then have "\<forall>x\<in>set (take k ?ys). \<forall>y\<in>set (drop k ?ys). x \<le> y"
    unfolding sorted_append by blast
  moreover have "mset xs - mset (take k ?ys) = mset (drop k ?ys)" using split by simp
  ultimately show "\<forall>x\<in>#mset (take k ?ys). \<forall>y\<in>#(mset xs - mset (take k ?ys)). x \<le> y"
    by simp
qed

lemma sample_standings:
  "computeWeeklyWinners sampleRecords ''Warriorz'' aug4to10 =
     [\<lparr>standingPlayer = ''Zed'', standingLeague = ''Warriorz'', window = aug4to10,
        total = 4, gameCount = 4, isWinner = False\<rparr>,
      \<lparr>standingPlayer = ''Brent'', standingLeague = ''Warriorz'', window = aug4to10,
        total = 14, gameCount = 6, isWinner = True\<rparr>,
      \<lparr>standingPlayer = ''Malia'', standingLeague = ''Warriorz'', window = aug4to10,
        total = 14, gameCount = 5, isWinner = True\<rparr>,
      \<lparr>standingPlayer = ''Ann'', standingLeague = ''Warriorz'', window = aug4to10,
        total = 21, gameCount = 5, isWinner = False\<rparr>]"
  by code_simp

lemma sample_scores_Brent:
  "map score (filter (\<lambda>r. player r = ''Brent'' \<and> league r = ''Warriorz'' \<and>
        windowStart aug4to10 \<le> date r \<and> date r \<le> windowEnd aug4to10) sampleRecords)
   = [3, 3, 3, 3, 2, 6]"
  by code_simp

text \<open>
  C1. Let \<open>s\<close> be a standing that \<open>computeWeeklyWinners\<close> returns, and \<open>scores\<close> the scores
  of the records of its player in the league and the window, at least 5 of them. Then
  \<open>total s\<close> is the sum of 5 of these scores (five records, neither more nor fewer), and
  none of the scores left out is smaller than any of the five.
\<close>

theorem total_is_sum_of_five_smallest:
  assumes "s \<in> set (computeWeeklyWinners records lg w)"
    and "scores = mset (map score (filter (\<lambda>r. player r = standingPlayer s \<and> league r = lg \<and>
                      windowStart w \<le> date r \<and> date r \<le> windowEnd w) records))"
    and "5 \<le> size scores"
  shows "\<exists>best. best \<subseteq># scores \<and> size best = 5 \<and>
           (\<forall>x\<in>#best. \<forall>y\<in>#(scores - best). x \<le> y) \<and> total s = sum_mset best"
proof -
  let ?xs = "playerScores records lg w (standingPlayer s)"
  have sc: "scores = mset ?xs" using assms(2) by (simp only: playerScores_filter)
  then have len: "5 \<le> length ?xs" using assms(3) by simp
  have "total s = sum_mset (mset (take 5 (sort ?xs)))"
    using standing_fields(2) [OF assms(1)] by (simp add: bestFive_def sum_mset_sum_list)
  then show ?thesis
    using take_sort_smallest [OF len] sc by blast
qed

theorem total_is_sum_of_five_smallest_witness:
  "\<lparr>standingPlayer = ''Brent'', standingLeague = ''Warriorz'', window = aug4to10,
     total = 14, gameCount = 6, isWinner = True\<rparr>
     \<in> set (computeWeeklyWinners sampleRecords ''Warriorz'' aug4to10) \<and>
   (\<exists>best. best \<subseteq># mset [3, 3, 3, 3, 2, 6 :: int] \<and> size best = 5 \<and>
      (\<forall>x\<in>#best. \<forall>y\<in>#(mset [3, 3, 3, 3, 2, 6] - best). x \<le> y) \<and> 14 = sum_mset best)"
proof -
  let ?s = "\<lparr>standingPlayer = ''Brent'', standingLeague = ''Warriorz'', window = aug4to10,
     total = 14, gameCount = 6, isWinner = True\<rparr>"
  have mem: "?s \<in> set (computeWeeklyWinners sampleRecords ''Warriorz'' aug4to10)"
    by (simp add: sample_standings)
  have sc: "mset [3, 3, 3, 3, 2, 6 :: int] =
      mset (map score (filter (\<lambda>r. player r = standingPlayer ?s \<and> league r = ''Warriorz'' \<and>
        windowStart aug4to10 \<le> date r \<and> date r \<le> windowEnd aug4to10) sampleRecords))"
    using sample_scores_Brent by simp
  have "5 \<le> size (mset [3, 3, 3, 3, 2, 6 :: int])" by simp
  from total_is_sum_of_five_smallest [OF mem sc this] mem show ?thesis by simp
qed

lemma minTotal_eq:
  "minTotal groups =
     (if \<exists>g\<in>set groups. eligible g then Some (Min (bestFive ` {g \<in> set groups. eligible g}))
      else None)"
proof (cases "filter eligible groups")
  case Nil
  then have "\<not> (\<exists>g\<in>set groups. eligible g)" by (simp add: filter_empty_conv)
  with Nil show ?thesis by (simp add: minTotal_def)
next
  case (Cons g gs)
  have "bestFive ` {g \<in> set groups. eligible g} = set (map bestFive (filter eligible groups))"
    by auto
  also have "\<dots> = set (bestFive g # map bestFive gs)" using Cons by simp
  finally have "Min (bestFive ` {g \<in> set groups. eligible g}) = fold min (map bestFive gs) (bestFive g)"
    by (simp only: Min.set_eq_fold)
  moreover have "\<exists>g\<in>set groups. eligible g"
    using Cons by (metis filter_empty_conv list.distinct(1))
  ultimately show ?thesis using Cons by (simp add: minTotal_def)
qed

lemma eligible_totals:
  "total ` {t \<in> set (computeWeeklyWinners records lg w). 5 \<le> gameCount t} =
   bestFive ` {g \<in> set (map (playerScores records lg w) (playersConsidered records lg w)). eligible g}"
proof -
  let ?P = "set (playersConsidered records lg w)"
  let ?f = "standingOf records lg w
              (minTotal (map (playerScores records lg w) (playersConsidered records lg w)))"
  let ?ps = "playerScores records lg w"
  have "total ` {t \<in> ?f ` ?P. 5 \<le> gameCount t} =
        (\<lambda>p. total (?f p)) ` {p \<in> ?P. 5 \<le> gameCount (?f p)}"
    by (auto simp: image_iff)
  also have "\<dots> = (\<lambda>p. bestFive (?ps p)) ` {p \<in> ?P. eligible (?ps p)}"
    by (simp add: standingOf_def Let_def eligible_def)
  also have "\<dots> = bestFive ` {g \<in> ?ps ` ?P. eligible g}"
    by (auto simp: image_iff)
  finally show ?thesis by (simp only: set_computeWeeklyWinners set_map)
qed

text \<open>
  C2. For a standing \<open>s\<close> that \<open>computeWeeklyWinners\<close> returns, \<open>gameCount s\<close> is the number
  of records of its player in the league and window, and \<open>isWinner s\<close> holds exactly when
  \<open>gameCount s\<close> is at least 5 and \<open>total s\<close> is the least total among the returned
  standings with a game count of at least 5. So every eligible player at the minimum is a
  winner, tied or not, and a player with fewer than 5 records never is.
\<close>

theorem isWinner_iff_eligible_minimum:
  assumes "s \<in> set (computeWeeklyWinners records lg w)"
  shows "gameCount s = length (filter (\<lambda>r. player r = standingPlayer s \<and> league r = lg \<and>
                          windowStart w \<le> date r \<and> date r \<le> windowEnd w) records) \<and>
         (isWinner s \<longleftrightarrow>
            5 \<le> gameCount s \<and>
            total s = Min (total ` {t \<in> set (computeWeeklyWinners records lg w). 5 \<le> gameCount t}))"
proof -
  let ?groups = "map (playerScores records lg w) (playersConsidered records lg w)"
  let ?xs = "playerScores records lg w (standingPlayer s)"
  have gc: "gameCount s = length ?xs" by (rule standing_fields(3) [OF assms])
  have mem: "?xs \<in> set ?groups" using standing_fields(1) [OF assms] by simp
  have "isWinner s \<longleftrightarrow> eligible ?xs \<and> minTotal ?groups = Some (total s)"
    by (rule standing_fields(6) [OF assms])
  also have "\<dots> \<longleftrightarrow> 5 \<le> gameCount s \<and>
       total s = Min (total ` {t \<in> set (computeWeeklyWinners records lg w). 5 \<le> gameCount t})"
  proof (cases "eligible ?xs")
    case True
    then have "\<exists>g\<in>set ?groups. eligible g" using mem by blast
    then have "minTotal ?groups = Some (Min (bestFive ` {g \<in> set ?groups. eligible g}))"
      by (simp only: minTotal_eq if_True)
    then show ?thesis using True gc by (auto simp only: eligible_totals eligible_def option.inject)
  next
    case False
    then show ?thesis using gc by (simp add: eligible_def)
  qed
  finally show ?thesis using gc by (simp only: length_playerScores_filter simp_thms)
qed

theorem isWinner_iff_eligible_minimum_witness:
  "\<lparr>standingPlayer = ''Malia'', standingLeague = ''Warriorz'', window = aug4to10,
     total = 14, gameCount = 5, isWinner = True\<rparr>
     \<in> set (computeWeeklyWinners sampleRecords ''Warriorz'' aug4to10) \<and>
   5 = length (filter (\<lambda>r. player r = ''Malia'' \<and> league r = ''Warriorz'' \<and>
                 windowStart aug4to10 \<le> date r \<and> date r \<le> windowEnd aug4to10) sampleRecords) \<and>
   14 = Min (total ` {t \<in> set (computeWeeklyWinners sampleRecords ''Warriorz'' aug4to10).
                       5 \<le> gameCount t})"
proof -
  let ?s = "\<lparr>standingPlayer = ''Malia'', standingLeague = ''Warriorz'', window = aug4to10,
     total = 14, gameCount = 5, isWinner = True\<rparr>"
  have mem: "?s \<in> set (computeWeeklyWinners sampleRecords ''Warriorz'' aug4to10)"
    by (simp add: sample_standings)
  from isWinner_iff_eligible_minimum [OF mem] mem show ?thesis by simp
qed

lemma standingPlayer_standingOf: "standingPlayer (standingOf records lg w mt p) = p"
  by (simp add: standingOf_def Let_def)

lemma mset_players_computeWeeklyWinners:
  "mset (map standingPlayer (computeWeeklyWinners records lg w)) =
   mset (playersConsidered records lg w)"
proof -
  let ?f = "standingOf records lg w
              (minTotal (map (playerScores records lg w) (playersConsidered records lg w)))"
  have "mset (computeWeeklyWinners records lg w) = mset (map ?f (playersConsidered records lg w))"
    by (simp add: computeWeeklyWinners_def Let_def)
  then have "mset (map standingPlayer (computeWeeklyWinners records lg w)) =
             mset (map standingPlayer (map ?f (playersConsidered records lg w)))"
    by (metis mset_map)
  then show ?thesis by (simp add: standingPlayer_standingOf o_def)
qed

lemma set_playersConsidered:
  "set (playersConsidered records lg w) =
   player ` {r \<in> set records. league r = lg \<and> windowStart w \<le> date r \<and> date r \<le> windowEnd w}"
  by (auto simp: playersConsidered_def inWindow_def)

lemma sorted_wrt_distinct_strict:
  assumes "sorted_wrt P xs" and "distinct (map g xs)"
  shows "sorted_wrt (\<lambda>a b. P a b \<and> g a \<noteq> g b) xs"
  using assms by (induction xs) auto

text \<open>
  C3. The players of the standings that \<open>computeWeeklyWinners\<close> returns are pairwise
  different, and they are the players with a record in the league and window (the players
  considered): one standing for each. The standings are in ascending order of total, and
  standings of equal total in ascending order of player name.
\<close>

theorem one_standing_per_player_sorted:
  "distinct (map standingPlayer (computeWeeklyWinners records lg w)) \<and>
   set (map standingPlayer (computeWeeklyWinners records lg w)) =
     player ` {r \<in> set records. league r = lg \<and> windowStart w \<le> date r \<and> date r \<le> windowEnd w} \<and>
   sorted_wrt (\<lambda>a b. total a < total b \<or> (total a = total b \<and> standingPlayer a < standingPlayer b))
     (computeWeeklyWinners records lg w)"
proof -
  let ?res = "computeWeeklyWinners records lg w"
  have d: "distinct (map standingPlayer ?res)"
    using mset_players_computeWeeklyWinners [of records lg w]
    by (metis distinct_remdups mset_eq_imp_distinct_iff playersConsidered_def)
  have s: "set (map standingPlayer ?res) =
     player ` {r \<in> set records. league r = lg \<and> windowStart w \<le> date r \<and> date r \<le> windowEnd w}"
    using mset_players_computeWeeklyWinners [of records lg w] set_playersConsidered [of records lg w]
    by (metis set_mset_mset)
  have "sorted (map (\<lambda>s. (total s, standingPlayer s)) ?res)"
    by (simp add: computeWeeklyWinners_def Let_def)
  then have "sorted_wrt (\<lambda>a b. (total a, standingPlayer a) \<le> (total b, standingPlayer b)) ?res"
    by (simp only: sorted_map)
  then have "sorted_wrt (\<lambda>a b. (total a, standingPlayer a) \<le> (total b, standingPlayer b) \<and>
                standingPlayer a \<noteq> standingPlayer b) ?res"
    using d by (rule sorted_wrt_distinct_strict)
  then have "sorted_wrt (\<lambda>a b. total a < total b \<or>
                (total a = total b \<and> standingPlayer a < standingPlayer b)) ?res"
    by (rule sorted_wrt_mono_rel [rotated]) auto
  with d s show ?thesis by blast
qed

end
